theory Spec2Isabelle
  imports Complex_Main "HOL-Library.Char_ord" "HOL-Library.List_Lexorder" "HOL-Library.Log_Nat"
begin

section \<open>Python values used by the scripts\<close>

text \<open>
  The four scripts are Python. Their integers are unbounded (\<open>int\<close>), their strings are
  modelled as \<open>string\<close> with one \<open>char\<close> per code point (code points below 256), their
  dictionaries as association lists in insertion order, and every \<open>raise\<close> as a value
  \<open>Inl (Raise cls msg)\<close> of a sum type, \<open>msg\<close> being what \<open>str(e)\<close> returns.
\<close>

datatype exn_class =
  TimeoutExpired | IndexError | ValueError | KeyError | TypeError | ZeroDivisionError
  | RecursionError | OtherException

datatype py_exn = Raise exn_class string

text \<open>Every class above derives from Python's \<open>Exception\<close>, so \<open>except Exception\<close>
  handles each of them; \<open>except (IndexError, ValueError)\<close> handles two.\<close>

text \<open>Sequencing: an exception raised by the first step leaves the block.\<close>

definition and_then :: "py_exn + 'a \<Rightarrow> ('a \<Rightarrow> py_exn + 'b) \<Rightarrow> py_exn + 'b" where
  "and_then m f = (case m of Inl e \<Rightarrow> Inl e | Inr x \<Rightarrow> f x)"


definition is_index_or_value_error :: "exn_class \<Rightarrow> bool" where
  "is_index_or_value_error c = (c = IndexError \<or> c = ValueError)"

subsection \<open>Strings\<close>

fun startswith :: "string \<Rightarrow> string \<Rightarrow> bool" where
  "startswith s [] = True"
| "startswith [] (p # ps) = False"
| "startswith (c # s) (p # ps) = (c = p \<and> startswith s ps)"

definition endswith :: "string \<Rightarrow> string \<Rightarrow> bool" where
  "endswith s suf = (length suf \<le> length s \<and> drop (length s - length suf) s = suf)"

text \<open>\<open>sub in s\<close>.\<close>

fun str_contains :: "string \<Rightarrow> string \<Rightarrow> bool" where
  "str_contains sub [] = (sub = [])"
| "str_contains sub (c # s) = (startswith (c # s) sub \<or> str_contains sub s)"

text \<open>\<open>s.split(sep)\<close> for a non-empty separator: the pieces between the occurrences of
  \<open>sep\<close>, found from the left without overlap.\<close>

function str_split :: "string \<Rightarrow> string \<Rightarrow> string list" where
  "str_split sep [] = [[]]"
| "str_split sep (c # s) =
     (if sep \<noteq> [] \<and> startswith (c # s) sep
      then [] # str_split sep (drop (length sep) (c # s))
      else (case str_split sep s of p # ps \<Rightarrow> (c # p) # ps | [] \<Rightarrow> [[c]]))"
  by pat_completeness auto
termination
  by (relation "measure (\<lambda>(sep, s). length s)") auto

definition py_split :: "string \<Rightarrow> string \<Rightarrow> py_exn + string list" where
  "py_split s sep =
     (if sep = [] then Inl (Raise ValueError ''empty separator'') else Inr (str_split sep s))"

text \<open>\<open>xs[i]\<close> for a non-negative index.\<close>

definition py_index :: "'a list \<Rightarrow> nat \<Rightarrow> py_exn + 'a" where
  "py_index xs i =
     (if i < length xs then Inr (xs ! i) else Inl (Raise IndexError ''list index out of range''))"

text \<open>\<open>str.isspace\<close> on the code points below 256: tab, line feed, vertical tab, form
  feed, carriage return, the four separators 28 to 31, space, next line (133) and
  no-break space (160).\<close>

definition isspace :: "char \<Rightarrow> bool" where
  "isspace c = ((of_char c :: nat) \<in> {9, 10, 11, 12, 13, 28, 29, 30, 31, 32, 133, 160})"

definition py_strip :: "string \<Rightarrow> string" where
  "py_strip s = rev (dropWhile isspace (rev (dropWhile isspace s)))"

subsection \<open>Dictionaries\<close>

text \<open>A \<open>dict\<close> keeps its keys in insertion order; assigning to a key that is present
  keeps the key's place. \<open>dict_incr\<close> is \<open>d[k] += n\<close> on a \<open>defaultdict(int)\<close>.\<close>

fun dict_put :: "'k \<Rightarrow> 'v \<Rightarrow> ('k \<times> 'v) list \<Rightarrow> ('k \<times> 'v) list" where
  "dict_put k v [] = [(k, v)]"
| "dict_put k v ((k', v') # d) = (if k' = k then (k, v) # d else (k', v') # dict_put k v d)"

definition dict_incr :: "'k \<Rightarrow> int \<Rightarrow> ('k \<times> int) list \<Rightarrow> ('k \<times> int) list" where
  "dict_incr k n d = dict_put k ((case map_of d k of None \<Rightarrow> 0 | Some c \<Rightarrow> c) + n) d"

definition dict_values_sum :: "('k \<times> int) list \<Rightarrow> int" where
  "dict_values_sum d = sum_list (map snd d)"

section \<open>ecosystem\_benchmark.py\<close>

subsection \<open>The world outside the script\<close>

text \<open>
  The script reads directories and runs the analyzer as a subprocess. \<open>dir_at\<close> gives
  the entries of the directory at a path (\<open>None\<close> when \<open>os.path.isdir\<close> is false), and
  \<open>analyzer\<close> gives what \<open>subprocess.run(cmd, capture_output=True, text=True,
  timeout=180)\<close> does on a command line: it raises, or it returns the exit status of
  the process (negative when a signal killed it) and the two captured streams. The call
  has no \<open>check=True\<close>, so a process that crashed or exited with a non-zero status is a
  return, not an exception. \<open>walk_limit\<close> is the number of directory levels that
  \<open>os.walk\<close> can descend below its top: \<open>os.walk\<close> of CPython before 3.12 is a recursive
  generator and raises \<open>RecursionError\<close> deeper than the interpreter's recursion limit
  allows (\<open>Some n\<close>); from 3.12 on it is a loop (\<open>None\<close>).
  \<open>list_rules\<close> and \<open>version_output\<close> are the standard output of the two other
  invocations (or the exception they raise), \<open>repos_txt\<close> the content of the manifest
  \<open>REPOS.txt\<close> when the file exists, \<open>path_join\<close> is \<open>str(repos_dir / repo)\<close> and
  \<open>utc_now\<close> the ISO timestamp read at the end of the run. Wall-clock durations
  (\<open>duration_seconds\<close>) are left out of the model.
\<close>

datatype fs_node = File string | Directory string "fs_node list"

record world =
  dir_at :: "string \<Rightarrow> fs_node list option"
  walk_limit :: "nat option"
  analyzer :: "string list \<Rightarrow> py_exn + (int \<times> string \<times> string)"
  list_rules :: "py_exn + string"
  version_output :: "py_exn + string"
  repos_txt :: "string option"
  path_join :: "string \<Rightarrow> string \<Rightarrow> string"
  utc_now :: string

definition skipped_dirs :: "string list" where
  "skipped_dirs = [''dependencies'', ''build'', ''.git'', ''node_modules'']"

definition too_deep :: "nat option \<Rightarrow> nat \<Rightarrow> bool" where
  "too_deep limit depth = (case limit of None \<Rightarrow> False | Some n \<Rightarrow> n < depth)"

text \<open>The loop of \<open>count_move_files\<close> over \<open>os.walk(repo_path)\<close>: the files of a directory
  that end in \<open>.move\<close> are counted, the directories of the four names are pruned, the
  others are entered one level deeper. \<open>walk_sum\<close> is the count over the entries of
  a directory that lies \<open>depth\<close> levels below the top.\<close>

fun walk_count :: "nat option \<Rightarrow> nat \<Rightarrow> fs_node \<Rightarrow> py_exn + int"
  and walk_sum :: "nat option \<Rightarrow> nat \<Rightarrow> fs_node list \<Rightarrow> py_exn + int" where
  "walk_count limit depth (File n) = Inr (if endswith n ''.move'' then 1 else 0)"
| "walk_count limit depth (Directory n kids) =
     (if n \<in> set skipped_dirs then Inr 0
      else if too_deep limit (Suc depth)
      then Inl (Raise RecursionError ''maximum recursion depth exceeded'')
      else walk_sum limit (Suc depth) kids)"
| "walk_sum limit depth [] = Inr 0"
| "walk_sum limit depth (k # ks) =
     (case walk_count limit depth k of
        Inl e \<Rightarrow> Inl e
      | Inr a \<Rightarrow> (case walk_sum limit depth ks of Inl e \<Rightarrow> Inl e | Inr b \<Rightarrow> Inr (a + b)))"

definition count_move_files :: "world \<Rightarrow> string \<Rightarrow> py_exn + int" where
  "count_move_files w repo_path =
     (case dir_at w repo_path of None \<Rightarrow> Inr 0 | Some kids \<Rightarrow> walk_sum (walk_limit w) 0 kids)"

subsection \<open>run\_lint\_on\_repo\<close>

record RepoResult =
  rr_name :: string
  rr_total_findings :: int
  rr_move_files :: int
  rr_lint_breakdown :: "(string \<times> int) list"
  rr_error :: "string option"

text \<open>The two statements inside the inner \<open>try\<close>: the text after the first
  \<open>warning:\<close>, stripped, up to its first colon, stripped.\<close>

definition extract_lint_name :: "string \<Rightarrow> py_exn + string" where
  "extract_lint_name line =
     and_then (py_split line ''warning:'') (\<lambda>parts.
     and_then (py_index parts 1) (\<lambda>p1.
     let after_warning = py_strip p1 in
     and_then (py_split after_warning '':'') (\<lambda>parts2.
     and_then (py_index parts2 0) (\<lambda>p0. Inr (py_strip p0)))))"

text \<open>One turn of the loop over the lines, on the pair \<open>(total, lint_counts)\<close>.\<close>

definition count_line :: "int \<times> (string \<times> int) list \<Rightarrow> string \<Rightarrow> py_exn + int \<times> (string \<times> int) list" where
  "count_line st line =
     (case st of (n_total, lint_counts) \<Rightarrow>
      if str_contains ''warning:'' line then
        (case extract_lint_name line of
           Inr lint_name \<Rightarrow> Inr (n_total + 1, dict_incr lint_name 1 lint_counts)
         | Inl (Raise cls msg) \<Rightarrow>
             if is_index_or_value_error cls
             then Inr (n_total + 1, dict_incr ''unknown'' 1 lint_counts)
             else Inl (Raise cls msg))
      else Inr (n_total, lint_counts))"

fun count_lines :: "int \<times> (string \<times> int) list \<Rightarrow> string list \<Rightarrow> py_exn + int \<times> (string \<times> int) list" where
  "count_lines st [] = Inr st"
| "count_lines st (line # rest) =
     (case count_line st line of Inl e \<Rightarrow> Inl e | Inr st' \<Rightarrow> count_lines st' rest)"

definition analyzer_cmd :: "string \<Rightarrow> bool \<Rightarrow> string list" where
  "analyzer_cmd repo_path experimental =
     [''./target/release/move-clippy''] @ (if experimental then [''--experimental''] else [])
       @ [repo_path]"

text \<open>The body of the outer \<open>try\<close>. The exit status of the process is not read.\<close>

definition lint_try_body :: "world \<Rightarrow> string \<Rightarrow> string \<Rightarrow> bool \<Rightarrow> int \<Rightarrow> py_exn + RepoResult" where
  "lint_try_body w repo_name repo_path experimental n_move_files =
     (case analyzer w (analyzer_cmd repo_path experimental) of
        Inl e \<Rightarrow> Inl e
      | Inr (returncode, out, err) \<Rightarrow>
          (case count_lines (0, []) (str_split [CHR 0x0A] (out @ err)) of
             Inl e \<Rightarrow> Inl e
           | Inr (n_total, lint_counts) \<Rightarrow>
               Inr \<lparr>rr_name = repo_name, rr_total_findings = n_total,
                    rr_move_files = n_move_files, rr_lint_breakdown = lint_counts,
                    rr_error = None\<rparr>))"

text \<open>The count of the source files stands before the \<open>try\<close>: what it raises leaves
  the function.\<close>

definition run_lint_on_repo :: "world \<Rightarrow> string \<times> string \<times> bool \<Rightarrow> py_exn + RepoResult" where
  "run_lint_on_repo w args =
     (case args of (repo_name, repo_path, experimental) \<Rightarrow>
      if dir_at w repo_path = None then
        Inr \<lparr>rr_name = repo_name, rr_total_findings = 0, rr_move_files = 0,
             rr_lint_breakdown = [], rr_error = Some (''Directory not found: '' @ repo_path)\<rparr>
      else
        and_then (count_move_files w repo_path) (\<lambda>n_move_files.
        if n_move_files = 0 then
          Inr \<lparr>rr_name = repo_name, rr_total_findings = 0, rr_move_files = 0,
               rr_lint_breakdown = [], rr_error = Some ''No .move files found''\<rparr>
        else
          (case lint_try_body w repo_name repo_path experimental n_move_files of
             Inr r \<Rightarrow> Inr r
           | Inl (Raise cls msg) \<Rightarrow>
               if cls = TimeoutExpired then
                 Inr \<lparr>rr_name = repo_name, rr_total_findings = 0, rr_move_files = n_move_files,
                      rr_lint_breakdown = [], rr_error = Some ''Timeout after 180s''\<rparr>
               else
                 Inr \<lparr>rr_name = repo_name, rr_total_findings = 0, rr_move_files = n_move_files,
                      rr_lint_breakdown = [], rr_error = Some msg\<rparr>)))"

subsection \<open>get\_version, get\_lint\_metadata, load\_repo\_list\<close>

definition get_version :: "world \<Rightarrow> string" where
  "get_version w =
     (case version_output w of
        Inl e \<Rightarrow> ''unknown''
      | Inr out \<Rightarrow> concat (str_split ''move-clippy '' (py_strip out)))"

record lint_meta =
  md_category :: string
  md_tier :: string

definition metadata_line :: "string \<Rightarrow> (string \<times> lint_meta) list \<Rightarrow> (string \<times> lint_meta) list" where
  "metadata_line line metadata =
     (let parts = str_split [CHR 0x09] line in
      if 3 \<le> length parts
      then dict_put (parts ! 0) \<lparr>md_category = parts ! 1, md_tier = parts ! 2\<rparr> metadata
      else metadata)"

definition get_lint_metadata :: "world \<Rightarrow> (string \<times> lint_meta) list" where
  "get_lint_metadata w =
     (case list_rules w of
        Inl e \<Rightarrow> []
      | Inr out \<Rightarrow> fold metadata_line (str_split [CHR 0x0A] (py_strip out)) [])"

text \<open>\<open>load_repo_list\<close> on the content of the manifest; \<open>None\<close> is \<open>sys.exit(1)\<close>.\<close>

definition load_repo_list :: "world \<Rightarrow> string list option" where
  "load_repo_list w =
     (case repos_txt w of
        None \<Rightarrow> None
      | Some content \<Rightarrow>
          Some (filter (\<lambda>line. line \<noteq> [] \<and> \<not> startswith line ''#'')
                  (map py_strip (str_split [CHR 0x0A] content))))"

subsection \<open>run\_benchmark\<close>

text \<open>
  The worker pool hands the results back in completion order. A schedule gives each
  work item (by its index) a finish time, and \<open>broken\<close> the text of the exception that
  collecting the item's future raises for a reason of the pool's own, if any.
\<close>

record schedule =
  finish_time :: "nat \<Rightarrow> nat"
  broken :: "nat \<Rightarrow> string option"

record lint_entry =
  le_count :: int
  le_repos :: "string list"
  le_tier :: "string option"
  le_category :: "string option"

record repo_summary =
  rs_findings :: int
  rs_move_files :: int
  rs_error :: "string option"

record BenchmarkResult =
  version :: string
  timestamp :: string
  total_repos :: int
  repos_with_findings :: int
  total_findings :: int
  by_lint :: "(string \<times> lint_entry) list"
  by_tier :: "(string \<times> int) list"
  by_category :: "(string \<times> int) list"
  repos :: "(string \<times> repo_summary) list"

text \<open>The body of the loop over \<open>as_completed(futures)\<close> for the work item \<open>i\<close>.\<close>

definition collect_result :: "world \<Rightarrow> schedule \<Rightarrow> (string \<times> string \<times> bool) list \<Rightarrow> nat \<Rightarrow> RepoResult" where
  "collect_result w sch work_items i =
     (let item = work_items ! i; repo_name = fst item;
          outcome = (case broken sch i of
                       Some msg \<Rightarrow> Inl (Raise OtherException msg)
                     | None \<Rightarrow> run_lint_on_repo w item)
      in case outcome of
           Inr r \<Rightarrow> r
         | Inl (Raise cls msg) \<Rightarrow>
             \<lparr>rr_name = repo_name, rr_total_findings = 0, rr_move_files = 0,
              rr_lint_breakdown = [], rr_error = Some msg\<rparr>)"

definition run_all :: "world \<Rightarrow> schedule \<Rightarrow> (string \<times> string \<times> bool) list \<Rightarrow> RepoResult list" where
  "run_all w sch work_items =
     map (collect_result w sch work_items)
       (sort_key (finish_time sch) [0 ..< length work_items])"

text \<open>\<open>by_lint[lint_name]["count"] += count; by_lint[lint_name]["repos"].append(name)\<close>
  on the \<open>defaultdict\<close>.\<close>

definition add_lint :: "string \<Rightarrow> string \<times> int \<Rightarrow> (string \<times> lint_entry) list \<Rightarrow> (string \<times> lint_entry) list" where
  "add_lint repo_name kv d =
     (case kv of (lint_name, n) \<Rightarrow>
      let e = (case map_of d lint_name of
                 None \<Rightarrow> \<lparr>le_count = 0, le_repos = [], le_tier = None, le_category = None\<rparr>
               | Some e \<Rightarrow> e)
      in dict_put lint_name (e\<lparr>le_count := le_count e + n, le_repos := le_repos e @ [repo_name]\<rparr>) d)"

definition add_result :: "RepoResult \<Rightarrow> (string \<times> lint_entry) list \<Rightarrow> (string \<times> lint_entry) list" where
  "add_result r d = fold (add_lint (rr_name r)) (rr_lint_breakdown r) d"

definition add_tier_info :: "(string \<times> lint_meta) list \<Rightarrow> string \<times> lint_entry \<Rightarrow> string \<times> lint_entry" where
  "add_tier_info lint_metadata kv =
     (case kv of (lint_name, e) \<Rightarrow>
      case map_of lint_metadata lint_name of
        Some m \<Rightarrow> (lint_name, e\<lparr>le_tier := Some (md_tier m), le_category := Some (md_category m)\<rparr>)
      | None \<Rightarrow> (lint_name, e))"

text \<open>\<open>data.get("tier", "unknown")\<close> and \<open>data.get("category", "unknown")\<close>.\<close>

definition tier_of :: "lint_entry \<Rightarrow> string" where
  "tier_of e = (case le_tier e of Some t \<Rightarrow> t | None \<Rightarrow> ''unknown'')"

definition category_of :: "lint_entry \<Rightarrow> string" where
  "category_of e = (case le_category e of Some c \<Rightarrow> c | None \<Rightarrow> ''unknown'')"

definition summary_of :: "RepoResult \<Rightarrow> repo_summary" where
  "summary_of r = \<lparr>rs_findings = rr_total_findings r, rs_move_files = rr_move_files r,
                   rs_error = rr_error r\<rparr>"

text \<open>The aggregation, from \<open># Aggregate results\<close> to the \<open>return\<close>.\<close>

definition aggregate :: "world \<Rightarrow> (string \<times> lint_meta) list \<Rightarrow> string list \<Rightarrow> RepoResult list \<Rightarrow> BenchmarkResult" where
  "aggregate w lint_metadata repo_list results =
     (let n_total = sum_list (map rr_total_findings results);
          n_with = int (length (filter (\<lambda>r. 0 < rr_total_findings r) results));
          lints = map (add_tier_info lint_metadata) (fold add_result results []);
          tiers = fold (\<lambda>(lint_name, e). dict_incr (tier_of e) (le_count e)) lints [];
          categories = fold (\<lambda>(lint_name, e). dict_incr (category_of e) (le_count e)) lints [];
          repos_dict = fold (\<lambda>r. dict_put (rr_name r) (summary_of r)) results []
      in \<lparr>version = get_version w, timestamp = utc_now w @ ''Z'',
          total_repos = int (length repo_list), repos_with_findings = n_with,
          total_findings = n_total, by_lint = lints, by_tier = tiers,
          by_category = categories, repos = repos_dict\<rparr>)"

definition run_benchmark :: "world \<Rightarrow> schedule \<Rightarrow> string \<Rightarrow> bool \<Rightarrow> BenchmarkResult option" where
  "run_benchmark w sch repos_dir experimental =
     (case load_repo_list w of
        None \<Rightarrow> None
      | Some repo_list \<Rightarrow>
          let lint_metadata = get_lint_metadata w;
              work_items = map (\<lambda>repo. (repo, path_join w repos_dir repo, experimental)) repo_list;
              results = run_all w sch work_items
          in Some (aggregate w lint_metadata repo_list results))"

subsection \<open>Sums read off a snapshot\<close>

text \<open>The sum of the per-rule counts, the sum of the per-repository finding counts, the
  tier and category tags of the rules, and the total count of the rules that
  \<open>data.get("tier", "unknown")\<close> resp. \<open>data.get("category", "unknown")\<close> puts under
  one key.\<close>

definition sum_rule_counts :: "BenchmarkResult \<Rightarrow> int" where
  "sum_rule_counts s = sum_list (map (\<lambda>kv. le_count (snd kv)) (by_lint s))"

definition sum_repo_findings :: "BenchmarkResult \<Rightarrow> int" where
  "sum_repo_findings s = sum_list (map (\<lambda>kv. rs_findings (snd kv)) (repos s))"

definition rule_tags :: "BenchmarkResult \<Rightarrow> (string \<times> string option \<times> string option) list" where
  "rule_tags s = map (\<lambda>kv. (fst kv, le_tier (snd kv), le_category (snd kv))) (by_lint s)"

definition tier_total :: "string \<Rightarrow> (string \<times> lint_entry) list \<Rightarrow> int" where
  "tier_total t d = sum_list (map le_count (filter (\<lambda>e. tier_of e = t) (map snd d)))"

definition category_total :: "string \<Rightarrow> (string \<times> lint_entry) list \<Rightarrow> int" where
  "category_total c d = sum_list (map le_count (filter (\<lambda>e. category_of e = c) (map snd d)))"

definition untagged :: "(string \<times> lint_entry) list \<Rightarrow> bool" where
  "untagged d = (\<forall>kv \<in> set d. le_tier (snd kv) = None \<and> le_category (snd kv) = None)"

section \<open>compare\_baselines.py\<close>

text \<open>
  A baseline is the dictionary that \<open>json.load\<close> returns for a snapshot file. The keys
  the script indexes with \<open>[...]\<close> are fields; the keys it reads with \<open>get\<close> and a
  default may be missing and are options. A JSON object has each key once, so the
  association lists of a baseline have distinct keys.
\<close>

record json_lint =
  jl_count :: "int option"
  jl_tier :: "string option"

record json_repo =
  jr_findings :: "int option"

record baseline =
  b_version :: string
  b_timestamp :: string
  b_total_repos :: int
  b_repos_with_findings :: int
  b_total_findings :: int
  b_by_tier :: "(string \<times> int) list option"
  b_by_lint :: "(string \<times> json_lint) list option"
  b_repos :: "(string \<times> json_repo) list option"

text \<open>\<open>d.get(key, {})\<close>, \<open>tiers.get(tier, 0)\<close>, \<open>lints.get(lint, {}).get('count', 0)\<close>,
  \<open>lints[lint].get('tier', 'unknown')\<close> for a key that is present, and
  \<open>repos.get(repo, {}).get('findings', 0)\<close>.\<close>

definition get_dict :: "(string \<times> 'v) list option \<Rightarrow> (string \<times> 'v) list" where
  "get_dict d = (case d of None \<Rightarrow> [] | Some kvs \<Rightarrow> kvs)"

definition tier_count :: "(string \<times> int) list \<Rightarrow> string \<Rightarrow> int" where
  "tier_count tiers t = (case map_of tiers t of None \<Rightarrow> 0 | Some n \<Rightarrow> n)"

definition lint_count :: "(string \<times> json_lint) list \<Rightarrow> string \<Rightarrow> int" where
  "lint_count lints l =
     (case map_of lints l of
        None \<Rightarrow> 0
      | Some e \<Rightarrow> (case jl_count e of None \<Rightarrow> 0 | Some n \<Rightarrow> n))"

definition lint_tier :: "(string \<times> json_lint) list \<Rightarrow> string \<Rightarrow> string" where
  "lint_tier lints l =
     (case map_of lints l of
        None \<Rightarrow> ''unknown''
      | Some e \<Rightarrow> (case jl_tier e of None \<Rightarrow> ''unknown'' | Some t \<Rightarrow> t))"

definition repo_count :: "(string \<times> json_repo) list \<Rightarrow> string \<Rightarrow> int" where
  "repo_count rs r =
     (case map_of rs r of
        None \<Rightarrow> 0
      | Some e \<Rightarrow> (case jr_findings e of None \<Rightarrow> 0 | Some n \<Rightarrow> n))"

text \<open>
  The script builds Python sets of strings and loops over them. \<open>sorted(s)\<close> visits the
  elements in ascending order. A bare \<open>for x in s\<close> visits them in the order of the
  set's hash table, which the strings' hash values fix; CPython draws the seed of string
  hashing anew for each process unless \<open>PYTHONHASHSEED\<close> is set. The function \<open>h\<close> below
  stands for the hashing of one process: it gives every string its place.
\<close>

definition py_sorted :: "string list \<Rightarrow> string list" where
  "py_sorted xs = sort (remdups xs)"

definition set_iter :: "(string \<Rightarrow> nat) \<Rightarrow> string list \<Rightarrow> string list" where
  "set_iter h xs = sort_key h (remdups xs)"

type_synonym delta_row = "string \<times> int \<times> int \<times> int"

definition row_name :: "delta_row \<Rightarrow> string" where
  "row_name r = fst r"

definition row_delta :: "delta_row \<Rightarrow> int" where
  "row_delta r = snd (snd (snd r))"

definition delta_of :: "(string \<Rightarrow> int) \<Rightarrow> (string \<Rightarrow> int) \<Rightarrow> string \<Rightarrow> delta_row" where
  "delta_of old_count new_count k = (k, old_count k, new_count k, new_count k - old_count k)"

text \<open>The loop that fills \<open>changes\<close>, and \<open>changes.sort(key=lambda x: -abs(x[3]))\<close>; the
  sort of a Python list is stable.\<close>

definition changed_rows :: "(string \<Rightarrow> int) \<Rightarrow> (string \<Rightarrow> int) \<Rightarrow> string list \<Rightarrow> delta_row list" where
  "changed_rows old_count new_count ks =
     filter (\<lambda>r. row_delta r \<noteq> 0) (map (delta_of old_count new_count) ks)"

definition by_magnitude :: "delta_row list \<Rightarrow> delta_row list" where
  "by_magnitude changes = sort_key (\<lambda>r. - \<bar>row_delta r\<bar>) changes"

definition lint_changes :: "(string \<Rightarrow> nat) \<Rightarrow> baseline \<Rightarrow> baseline \<Rightarrow> delta_row list" where
  "lint_changes h old new =
     (let old_lints = get_dict (b_by_lint old); new_lints = get_dict (b_by_lint new);
          all_lints = map fst old_lints @ map fst new_lints
      in by_magnitude
           (changed_rows (lint_count old_lints) (lint_count new_lints) (set_iter h all_lints)))"

definition repo_changes :: "(string \<Rightarrow> nat) \<Rightarrow> baseline \<Rightarrow> baseline \<Rightarrow> delta_row list" where
  "repo_changes h old new =
     (let old_repos = get_dict (b_repos old); new_repos = get_dict (b_repos new);
          all_repos = map fst old_repos @ map fst new_repos
      in by_magnitude
           (changed_rows (repo_count old_repos) (repo_count new_repos) (set_iter h all_repos)))"

datatype verdict = Regression int string | Improvement int string | NoChange

text \<open>What the script prints, section by section: the two header lines (version and the
  first ten characters of the timestamp), the rows of the overall table, of the tier
  table and of the lint table (at most 20, then the number of rows left out when there
  are more), the new and the removed lints (a section with no row is not printed), the
  repository rows (at most 10) and the verdict.\<close>

record comparison =
  header_rows :: "(string \<times> string) list"
  overall_rows :: "delta_row list"
  tier_rows :: "delta_row list"
  lint_rows :: "delta_row list"
  lint_rows_omitted :: "int option"
  new_lint_rows :: "(string \<times> string \<times> int) list"
  removed_lint_rows :: "(string \<times> int) list"
  repo_rows :: "delta_row list"
  cmp_verdict :: verdict

definition compare_baselines :: "(string \<Rightarrow> nat) \<Rightarrow> baseline \<Rightarrow> baseline \<Rightarrow> comparison" where
  "compare_baselines h old new =
     (let metrics = [(''Total repos'', b_total_repos old, b_total_repos new),
                     (''Repos with findings'', b_repos_with_findings old, b_repos_with_findings new),
                     (''Total findings'', b_total_findings old, b_total_findings new)];
          old_tiers = get_dict (b_by_tier old); new_tiers = get_dict (b_by_tier new);
          all_tiers = map fst old_tiers @ map fst new_tiers;
          old_lints = get_dict (b_by_lint old); new_lints = get_dict (b_by_lint new);
          changes = lint_changes h old new;
          new_only = filter (\<lambda>l. l \<notin> set (map fst old_lints)) (map fst new_lints);
          removed = filter (\<lambda>l. l \<notin> set (map fst new_lints)) (map fst old_lints);
          total_delta = b_total_findings new - b_total_findings old
      in \<lparr>header_rows = [(b_version old, take 10 (b_timestamp old)),
                         (b_version new, take 10 (b_timestamp new))],
          overall_rows = map (\<lambda>(name, old_val, new_val). (name, old_val, new_val, new_val - old_val))
                           metrics,
          tier_rows = map (delta_of (tier_count old_tiers) (tier_count new_tiers))
                        (py_sorted all_tiers),
          lint_rows = take 20 changes,
          lint_rows_omitted =
            (if 20 < length changes then Some (int (length changes) - 20) else None),
          new_lint_rows = map (\<lambda>l. (l, lint_tier new_lints l, lint_count new_lints l))
                            (py_sorted new_only),
          removed_lint_rows = map (\<lambda>l. (l, lint_count old_lints l)) (py_sorted removed),
          repo_rows = take 10 (repo_changes h old new),
          cmp_verdict =
            (if 0 < total_delta then Regression total_delta (b_version new)
             else if total_delta < 0 then Improvement (- total_delta) (b_version new)
             else NoChange)\<rparr>)"

section \<open>Python floats\<close>

text \<open>
  A Python \<open>float\<close> is an IEEE 754 binary64 number; a finite one is a rational. The
  quotient \<open>a / b\<close> of two integers and the product of two floats are the exact results
  rounded to the nearest float, ties to the even significand. \<open>to_float\<close> is that
  rounding for results below the overflow threshold (every float of the scripts lies
  between 0 and 100): a significand of 53 bits at the exponent of the value, and at the
  exponent -1022 for the subnormal values.
\<close>

definition round_half_even :: "rat \<Rightarrow> int" where
  "round_half_even y =
     (let f = \<lfloor>y\<rfloor>; r = y - of_int f
      in if r < 1 / 2 then f else if 1 / 2 < r then f + 1 else if even f then f else f + 1)"

text \<open>The exponent of a positive rational: \<open>\<lfloor>log\<^sub>2 x\<rfloor>\<close>.\<close>

definition float_exponent :: "rat \<Rightarrow> int" where
  "float_exponent x = (if 1 \<le> x then bitlen \<lfloor>x\<rfloor> - 1 else - bitlen (\<lceil>1 / x\<rceil> - 1))"

definition to_float :: "rat \<Rightarrow> rat" where
  "to_float x =
     (if x = 0 then 0
      else let a = \<bar>x\<bar>; e = max (float_exponent a) (- 1022); u = 2 powi (e - 52)
           in sgn x * of_int (round_half_even (a / u)) * u)"

text \<open>\<open>a / b\<close> on integers, with and without the check of the divisor (the second for
  the divisions that the code guards itself), and \<open>x * y\<close> on floats; the integer 100
  is the float 100.\<close>

definition true_div :: "int \<Rightarrow> int \<Rightarrow> rat" where
  "true_div a b = to_float (of_int a / of_int b)"

definition py_truediv :: "int \<Rightarrow> int \<Rightarrow> py_exn + rat" where
  "py_truediv a b =
     (if b = 0 then Inl (Raise ZeroDivisionError ''division by zero'') else Inr (true_div a b))"

definition py_fmul :: "rat \<Rightarrow> rat \<Rightarrow> rat" where
  "py_fmul x y = to_float (x * y)"

section \<open>calculate\_metrics.py\<close>

text \<open>
  The triage file in the list-of-findings shape. The keys of a finding that the script
  indexes in every run (\<open>lint\<close>, \<open>classification\<close>) are fields; \<open>severity\<close> is read
  with \<open>get\<close>, and the other keys are indexed only when the report writes the finding,
  so they are options and indexing a missing one raises \<open>KeyError\<close>.
\<close>

record finding =
  f_lint :: string
  f_classification :: string
  f_severity :: "string option"
  f_repo :: "string option"
  f_file :: "string option"
  f_line :: "int option"
  f_message :: "string option"
  f_rationale :: "string option"

record triage_data =
  td_metadata :: "(string \<times> string) list"
  td_findings :: "finding list"

record lint_metrics =
  m_total :: int
  m_tp :: int
  m_fp :: int
  m_info :: int
  m_skip :: int
  m_fp_rate :: rat
  m_precision :: rat

text \<open>\<open>by_lint[finding['lint']].append(finding)\<close> on the \<open>defaultdict(list)\<close>.\<close>

definition append_to :: "string \<Rightarrow> 'a \<Rightarrow> (string \<times> 'a list) list \<Rightarrow> (string \<times> 'a list) list" where
  "append_to k x d = dict_put k ((case map_of d k of None \<Rightarrow> [] | Some xs \<Rightarrow> xs) @ [x]) d"

definition group_by_lint :: "finding list \<Rightarrow> (string \<times> finding list) list" where
  "group_by_lint fs = fold (\<lambda>f. append_to (f_lint f) f) fs []"

definition count_class :: "string \<Rightarrow> finding list \<Rightarrow> int" where
  "count_class c fs = int (length (filter (\<lambda>f. f_classification f = c) fs))"

definition metrics_of :: "finding list \<Rightarrow> lint_metrics" where
  "metrics_of findings =
     (let tp_count = count_class ''TP'' findings;
          fp_count = count_class ''FP'' findings;
          info_count = count_class ''INFO'' findings;
          skip_count = count_class ''SKIP'' findings;
          total_classified = tp_count + fp_count;
          fp_rate = (if 0 < total_classified
                     then py_fmul (true_div fp_count total_classified) 100 else 0);
          precision = (if 0 < total_classified
                       then py_fmul (true_div tp_count total_classified) 100 else 0)
      in \<lparr>m_total = int (length findings), m_tp = tp_count, m_fp = fp_count,
          m_info = info_count, m_skip = skip_count, m_fp_rate = fp_rate,
          m_precision = precision\<rparr>)"

definition calculate_metrics :: "triage_data \<Rightarrow> (string \<times> lint_metrics) list" where
  "calculate_metrics triage = map (\<lambda>kv. (fst kv, metrics_of (snd kv)))
                                (group_by_lint (td_findings triage))"

subsection \<open>The recommendations of print\_summary and generate\_report\<close>

datatype status = Stable | Preview | Research

definition status_of :: "lint_metrics \<Rightarrow> status" where
  "status_of m = (if m_fp_rate m < 10 then Stable else if m_fp_rate m < 25 then Preview
                  else Research)"

definition promotable :: "(string \<times> lint_metrics) list \<Rightarrow> string list" where
  "promotable metrics =
     map fst (filter (\<lambda>kv. m_fp_rate (snd kv) < 10 \<and> 5 \<le> m_total (snd kv)) metrics)"

definition needs_refinement :: "(string \<times> lint_metrics) list \<Rightarrow> string list" where
  "needs_refinement metrics =
     map fst (filter (\<lambda>kv. 10 \<le> m_fp_rate (snd kv) \<and> m_fp_rate (snd kv) < 30) metrics)"

definition needs_demotion :: "(string \<times> lint_metrics) list \<Rightarrow> string list" where
  "needs_demotion metrics = map fst (filter (\<lambda>kv. 30 \<le> m_fp_rate (snd kv)) metrics)"

definition sorted_lints :: "(string \<times> lint_metrics) list \<Rightarrow> (string \<times> lint_metrics \<times> status) list" where
  "sorted_lints metrics =
     map (\<lambda>kv. (fst kv, snd kv, status_of (snd kv))) (sort_key (\<lambda>kv. m_fp_rate (snd kv)) metrics)"

text \<open>What \<open>print_summary\<close> prints: the totals, the table sorted by false-positive rate,
  and the three lists of recommendations.\<close>

record summary =
  s_total_findings :: int
  s_total_tp :: int
  s_total_fp :: int
  s_total_info :: int
  s_rows :: "(string \<times> lint_metrics \<times> status) list"
  s_promote :: "string list"
  s_refine :: "string list"
  s_demote :: "string list"

definition print_summary :: "(string \<times> lint_metrics) list \<Rightarrow> triage_data \<Rightarrow> summary" where
  "print_summary metrics triage =
     \<lparr>s_total_findings = int (length (td_findings triage)),
      s_total_tp = sum_list (map (\<lambda>kv. m_tp (snd kv)) metrics),
      s_total_fp = sum_list (map (\<lambda>kv. m_fp (snd kv)) metrics),
      s_total_info = sum_list (map (\<lambda>kv. m_info (snd kv)) metrics),
      s_rows = sorted_lints metrics,
      s_promote = promotable metrics, s_refine = needs_refinement metrics,
      s_demote = needs_demotion metrics\<rparr>"

subsection \<open>generate\_report\<close>

text \<open>\<open>d[key]\<close> on a key that may be missing; \<open>str\<close> of a \<open>KeyError\<close> is the key in
  quotes.\<close>

definition need :: "string \<Rightarrow> 'a option \<Rightarrow> py_exn + 'a" where
  "need key v =
     (case v of None \<Rightarrow> Inl (Raise KeyError ([CHR 0x27] @ key @ [CHR 0x27])) | Some x \<Rightarrow> Inr x)"

text \<open>A loop or comprehension whose body may raise.\<close>

fun exn_map :: "('a \<Rightarrow> py_exn + 'b) \<Rightarrow> 'a list \<Rightarrow> py_exn + 'b list" where
  "exn_map g [] = Inr []"
| "exn_map g (x # xs) =
     (case g x of Inl e \<Rightarrow> Inl e
      | Inr y \<Rightarrow> (case exn_map g xs of Inl e \<Rightarrow> Inl e | Inr ys \<Rightarrow> Inr (y # ys)))"

text \<open>\<open>set(rationales)[:n]\<close>: a \<open>set\<close> cannot be sliced.\<close>

definition set_slice :: "'a list \<Rightarrow> nat \<Rightarrow> py_exn + 'a list" where
  "set_slice xs n = Inl (Raise TypeError ([CHR 0x27] @ ''set'' @ [CHR 0x27] @ '' object is not subscriptable''))"

record highlight =
  h_lint :: string
  h_repo :: string
  h_file :: string
  h_line :: int
  h_message :: string
  h_rationale :: string

definition write_highlight :: "finding \<Rightarrow> py_exn + highlight" where
  "write_highlight f =
     and_then (need ''repo'' (f_repo f)) (\<lambda>repo.
     and_then (need ''file'' (f_file f)) (\<lambda>file.
     and_then (need ''line'' (f_line f)) (\<lambda>line.
     and_then (need ''message'' (f_message f)) (\<lambda>message.
     and_then (need ''rationale'' (f_rationale f)) (\<lambda>rationale.
     Inr \<lparr>h_lint = f_lint f, h_repo = repo, h_file = file, h_line = line,
          h_message = message, h_rationale = rationale\<rparr>)))))"

text \<open>The body of the loop over \<open>fp_by_lint.items()\<close>: the heading with the number of
  false positives, then the causes with their counts.\<close>

definition write_fp_section :: "string \<times> finding list \<Rightarrow> py_exn + string \<times> int \<times> (int \<times> string) list" where
  "write_fp_section kv =
     (case kv of (lint_name, fps) \<Rightarrow>
      and_then (exn_map (\<lambda>fp. need ''rationale'' (f_rationale fp)) fps) (\<lambda>rationales.
      and_then (set_slice rationales 3) (\<lambda>top.
      Inr (lint_name, int (length fps),
           map (\<lambda>rationale. (int (count_list rationales rationale), rationale)) top))))"

record report =
  r_total_findings :: int
  r_total_tp :: int
  r_total_fp :: int
  r_overall_precision :: rat
  r_rows :: "(string \<times> lint_metrics \<times> status) list"
  r_critical :: "highlight list"
  r_high :: "highlight list"
  r_fp_sections :: "(string \<times> int \<times> (int \<times> string) list) list"
  r_promote :: "string list"
  r_refine :: "string list"
  r_demote :: "string list"

definition tps_of_severity :: "string \<Rightarrow> finding list \<Rightarrow> finding list" where
  "tps_of_severity sev fs =
     filter (\<lambda>f. f_classification f = ''TP'' \<and> f_severity f = Some sev) fs"

definition generate_report :: "(string \<times> lint_metrics) list \<Rightarrow> triage_data \<Rightarrow> py_exn + report" where
  "generate_report metrics triage =
     (let total_findings = int (length (td_findings triage));
          total_tp = sum_list (map (\<lambda>kv. m_tp (snd kv)) metrics);
          total_fp = sum_list (map (\<lambda>kv. m_fp (snd kv)) metrics)
      in and_then (py_truediv total_tp (total_tp + total_fp)) (\<lambda>q.
         let critical_tps = tps_of_severity ''critical'' (td_findings triage);
             high_tps = tps_of_severity ''high'' (td_findings triage);
             fp_by_lint = group_by_lint (filter (\<lambda>f. f_classification f = ''FP'')
                                           (td_findings triage))
         in and_then (exn_map write_highlight (take 5 critical_tps)) (\<lambda>critical.
            and_then (exn_map write_highlight (take 5 high_tps)) (\<lambda>high.
            and_then (exn_map write_fp_section fp_by_lint) (\<lambda>fp_sections.
            Inr \<lparr>r_total_findings = total_findings, r_total_tp = total_tp,
                 r_total_fp = total_fp, r_overall_precision = py_fmul q 100,
                 r_rows = sorted_lints metrics, r_critical = critical, r_high = high,
                 r_fp_sections = fp_sections, r_promote = promotable metrics,
                 r_refine = needs_refinement metrics,
                 r_demote = needs_demotion metrics\<rparr>)))))"

subsection \<open>Counts read off a triage dataset\<close>

text \<open>The findings of one rule, the number of them that are classified \<open>TP\<close> or
  \<open>FP\<close>, and the sum of the two percentages of a rule.\<close>

definition lint_findings :: "triage_data \<Rightarrow> string \<Rightarrow> finding list" where
  "lint_findings triage l = filter (\<lambda>f. f_lint f = l) (td_findings triage)"

definition classified :: "finding list \<Rightarrow> int" where
  "classified fs = count_class ''TP'' fs + count_class ''FP'' fs"

definition rate_sum :: "lint_metrics \<Rightarrow> rat" where
  "rate_sum m = m_fp_rate m + m_precision m"

text \<open>The spacing of the floats around a positive value.\<close>

definition ulp_at :: "rat \<Rightarrow> rat" where
  "ulp_at x = 2 powi (max (float_exponent x) (- 1022) - 52)"

section \<open>analyze\_fp.py\<close>

text \<open>
  The triage database in the map-of-findings-by-id shape. The script reads every key of
  an entry with \<open>get\<close> and a default, so every key may be missing.
\<close>

record triage_entry =
  e_status :: "string option"
  e_lint :: "string option"
  e_repo :: "string option"
  e_category :: "string option"
  e_notes :: "string option"

record triage_db =
  db_findings :: "(string \<times> triage_entry) list option"

record lint_stats =
  ls_total :: int
  ls_confirmed :: int
  ls_fp :: int
  ls_wont_fix :: int
  ls_needs_review :: int

record group_stats =
  gs_total :: int
  gs_confirmed :: int
  gs_fp :: int

record stats =
  st_total :: int
  st_by_status :: "(string \<times> int) list"
  st_by_lint :: "(string \<times> lint_stats) list"
  st_by_repo :: "(string \<times> group_stats) list"
  st_by_category :: "(string \<times> group_stats) list"
  st_fps_by_lint :: "(string \<times> triage_entry list) list"
  st_confirmed_by_lint :: "(string \<times> triage_entry list) list"

text \<open>\<open>finding.get("status", "needs_review")\<close> and \<open>finding.get("lint", "unknown")\<close>,
  likewise for the repository and the category.\<close>

definition entry_status :: "triage_entry \<Rightarrow> string" where
  "entry_status e = (case e_status e of None \<Rightarrow> ''needs_review'' | Some s \<Rightarrow> s)"

definition entry_lint :: "triage_entry \<Rightarrow> string" where
  "entry_lint e = (case e_lint e of None \<Rightarrow> ''unknown'' | Some l \<Rightarrow> l)"

definition entry_repo :: "triage_entry \<Rightarrow> string" where
  "entry_repo e = (case e_repo e of None \<Rightarrow> ''unknown'' | Some r \<Rightarrow> r)"

definition entry_category :: "triage_entry \<Rightarrow> string" where
  "entry_category e = (case e_category e of None \<Rightarrow> ''unknown'' | Some c \<Rightarrow> c)"

text \<open>\<open>d[k] = g(d[k])\<close> on a \<open>defaultdict\<close> whose factory returns \<open>dflt\<close>.\<close>

definition update_default :: "'v \<Rightarrow> ('v \<Rightarrow> 'v) \<Rightarrow> string \<Rightarrow> (string \<times> 'v) list \<Rightarrow> (string \<times> 'v) list" where
  "update_default dflt g k d = dict_put k (g (case map_of d k of None \<Rightarrow> dflt | Some v \<Rightarrow> v)) d"

definition new_lint_stats :: lint_stats where
  "new_lint_stats = \<lparr>ls_total = 0, ls_confirmed = 0, ls_fp = 0, ls_wont_fix = 0,
                      ls_needs_review = 0\<rparr>"

definition new_group_stats :: group_stats where
  "new_group_stats = \<lparr>gs_total = 0, gs_confirmed = 0, gs_fp = 0\<rparr>"

text \<open>The count by lint: the total, then the \<open>if\<close> chain over the status.\<close>

definition count_by_lint :: "string \<Rightarrow> lint_stats \<Rightarrow> lint_stats" where
  "count_by_lint status ls =
     (let ls1 = ls\<lparr>ls_total := ls_total ls + 1\<rparr>
      in if status = ''confirmed'' then ls1\<lparr>ls_confirmed := ls_confirmed ls1 + 1\<rparr>
         else if status = ''false_positive'' then ls1\<lparr>ls_fp := ls_fp ls1 + 1\<rparr>
         else if status = ''wont_fix'' then ls1\<lparr>ls_wont_fix := ls_wont_fix ls1 + 1\<rparr>
         else ls1\<lparr>ls_needs_review := ls_needs_review ls1 + 1\<rparr>)"

text \<open>The count by repository and by category.\<close>

definition count_by_group :: "string \<Rightarrow> group_stats \<Rightarrow> group_stats" where
  "count_by_group status gs =
     (let gs1 = gs\<lparr>gs_total := gs_total gs + 1\<rparr>
      in if status = ''confirmed'' then gs1\<lparr>gs_confirmed := gs_confirmed gs1 + 1\<rparr>
         else if status = ''false_positive'' then gs1\<lparr>gs_fp := gs_fp gs1 + 1\<rparr>
         else gs1)"

text \<open>The body of the loop over the findings.\<close>

definition analyze_step :: "triage_entry \<Rightarrow> stats \<Rightarrow> stats" where
  "analyze_step finding st =
     (let status = entry_status finding; lint = entry_lint finding;
          repo = entry_repo finding; category = entry_category finding
      in st\<lparr>st_total := st_total st + 1,
            st_by_status := dict_incr status 1 (st_by_status st),
            st_by_lint := update_default new_lint_stats (count_by_lint status) lint (st_by_lint st),
            st_by_repo := update_default new_group_stats (count_by_group status) repo (st_by_repo st),
            st_by_category :=
              update_default new_group_stats (count_by_group status) category (st_by_category st),
            st_fps_by_lint :=
              (if status = ''false_positive'' then append_to lint finding (st_fps_by_lint st)
               else st_fps_by_lint st),
            st_confirmed_by_lint :=
              (if status = ''confirmed'' then append_to lint finding (st_confirmed_by_lint st)
               else st_confirmed_by_lint st)\<rparr>)"

definition db_entries :: "triage_db \<Rightarrow> triage_entry list" where
  "db_entries db = (case db_findings db of None \<Rightarrow> [] | Some kvs \<Rightarrow> map snd kvs)"

definition analyze_findings :: "triage_db \<Rightarrow> stats" where
  "analyze_findings db =
     fold analyze_step (db_entries db)
       \<lparr>st_total = 0, st_by_status = [], st_by_lint = [], st_by_repo = [],
        st_by_category = [], st_fps_by_lint = [], st_confirmed_by_lint = []\<rparr>"

definition calculate_fp_rate :: "lint_stats \<Rightarrow> rat" where
  "calculate_fp_rate lint_stats =
     (let reviewed = ls_confirmed lint_stats + ls_fp lint_stats + ls_wont_fix lint_stats
      in if reviewed = 0 then 0 else py_fmul (true_div (ls_fp lint_stats) reviewed) 100)"

text \<open>The number of entries of a rule with a given status.\<close>

definition count_status :: "string \<Rightarrow> string \<Rightarrow> triage_db \<Rightarrow> int" where
  "count_status l s db =
     int (length (filter (\<lambda>e. entry_lint e = l \<and> entry_status e = s) (db_entries db)))"

section \<open>Fixtures\<close>


definition exits :: "int \<Rightarrow> string \<Rightarrow> string \<Rightarrow> string list \<Rightarrow> py_exn + (int \<times> string \<times> string)" where
  "exits returncode out err cmd = Inr (returncode, out, err)"

definition prints :: "string \<Rightarrow> string \<Rightarrow> string list \<Rightarrow> py_exn + (int \<times> string \<times> string)" where
  "prints out err cmd = exits 0 out err cmd"

definition join_slash :: "string \<Rightarrow> string \<Rightarrow> string" where
  "join_slash d r = d @ ''/'' @ r"

definition one_repo :: "string \<Rightarrow> fs_node list option" where
  "one_repo p =
     (if p = ''/repos/A''
      then Some [File ''a.move'', File ''README.md'', Directory ''build'' [File ''b.move'']]
      else None)"

definition example_world :: "(string list \<Rightarrow> py_exn + (int \<times> string \<times> string)) \<Rightarrow> string \<Rightarrow> world" where
  "example_world run manifest =
     \<lparr>dir_at = one_repo, walk_limit = None, analyzer = run,
      list_rules = Inr (''unused_import'' @ [CHR 0x09] @ ''style'' @ [CHR 0x09] @ ''stable''),
      version_output = Inr ''move-clippy 0.3.0'', repos_txt = Some manifest,
      path_join = join_slash, utc_now = ''2025-01-01T00:00:00''\<rparr>"




definition in_order :: schedule where
  "in_order = \<lparr>finish_time = id, broken = Map.empty\<rparr>"

definition scenario_world :: world where
  "scenario_world =
     example_world
       (prints (''warning: unused_import: a'' @ [CHR 0x0A] @ ''src/x.move:3'' @ [CHR 0x0A]
                @ ''warning: unused_import: b'') [])
       (''# curated'' @ [CHR 0x0A] @ ''A'' @ [CHR 0x0A] @ [CHR 0x0A] @ ''B'' @ [CHR 0x0A])"

definition duplicate_world :: world where
  "duplicate_world =
     example_world (prints ''warning: x: y'' []) (''A'' @ [CHR 0x0A] @ ''A'')"

definition unlisted_rule_world :: world where
  "unlisted_rule_world = example_world (prints ''warning: new_rule: y'' []) ''A''"

definition scenario_snapshot :: BenchmarkResult where
  "scenario_snapshot =
     \<lparr>version = ''0.3.0'', timestamp = ''2025-01-01T00:00:00Z'', total_repos = 2,
      repos_with_findings = 1, total_findings = 2,
      by_lint = [(''unused_import'', \<lparr>le_count = 2, le_repos = [''A''],
                   le_tier = Some ''stable'', le_category = Some ''style''\<rparr>)],
      by_tier = [(''stable'', 2)], by_category = [(''style'', 2)],
      repos = [(''A'', \<lparr>rs_findings = 2, rs_move_files = 1, rs_error = None\<rparr>),
               (''B'', \<lparr>rs_findings = 0, rs_move_files = 0,
                        rs_error = Some ''Directory not found: /repos/B''\<rparr>)]\<rparr>"

definition unlisted_result :: RepoResult where
  "unlisted_result = \<lparr>rr_name = ''A'', rr_total_findings = 1, rr_move_files = 1,
                       rr_lint_breakdown = [(''new_rule'', 1)], rr_error = None\<rparr>"

text \<open>Two baselines that differ in two rules by the same amount, and two processes whose
  string hashing puts the two rule names in opposite orders.\<close>

definition tie_old :: baseline where
  "tie_old = \<lparr>b_version = ''0.2.0'', b_timestamp = ''2025-01-01T00:00:00Z'', b_total_repos = 1,
              b_repos_with_findings = 0, b_total_findings = 0, b_by_tier = Some [],
              b_by_lint = Some [], b_repos = Some []\<rparr>"

definition tie_new :: baseline where
  "tie_new = \<lparr>b_version = ''0.3.0'', b_timestamp = ''2025-02-01T00:00:00Z'', b_total_repos = 1,
              b_repos_with_findings = 1, b_total_findings = 2,
              b_by_tier = Some [(''stable'', 2)],
              b_by_lint = Some [(''a'', \<lparr>jl_count = Some 1, jl_tier = Some ''stable''\<rparr>),
                                (''b'', \<lparr>jl_count = Some 1, jl_tier = Some ''stable''\<rparr>)],
              b_repos = Some [(''A'', \<lparr>jr_findings = Some 2\<rparr>)]\<rparr>"

definition hash_a_first :: "string \<Rightarrow> nat" where
  "hash_a_first s = (if s = ''a'' then 0 else 1)"

definition hash_b_first :: "string \<Rightarrow> nat" where
  "hash_b_first s = (if s = ''b'' then 0 else 1)"

text \<open>Triage datasets: a finding of rule \<open>R\<close> with a classification and nothing
  else, and one with a rationale too; one true and two false positives; one true
  positive among four informational findings; five true positives; and no finding at
  all.\<close>

definition bare :: "string \<Rightarrow> finding" where
  "bare c = \<lparr>f_lint = ''R'', f_classification = c, f_severity = None, f_repo = None,
             f_file = None, f_line = None, f_message = None, f_rationale = None\<rparr>"

definition noted :: "string \<Rightarrow> finding" where
  "noted c = (bare c)\<lparr>f_rationale := Some ''data transfer object''\<rparr>"

definition thirds :: triage_data where
  "thirds = \<lparr>td_metadata = [], td_findings = [bare ''TP'', noted ''FP'', noted ''FP'']\<rparr>"

definition low_signal :: triage_data where
  "low_signal = \<lparr>td_metadata = [], td_findings =
     [bare ''TP'', bare ''INFO'', bare ''INFO'', bare ''INFO'', bare ''INFO'']\<rparr>"

definition five_tp :: triage_data where
  "five_tp = \<lparr>td_metadata = [], td_findings =
     [bare ''TP'', bare ''TP'', bare ''TP'', bare ''TP'', bare ''TP'']\<rparr>"

definition no_findings :: triage_data where
  "no_findings = \<lparr>td_metadata = [], td_findings = []\<rparr>"

text \<open>A triage database with two entries of rule \<open>L\<close>: a false positive and a
  \<open>wont_fix\<close>.\<close>

definition entry_of :: "string \<Rightarrow> triage_entry" where
  "entry_of s = \<lparr>e_status = Some s, e_lint = Some ''L'', e_repo = Some ''A'',
                 e_category = Some ''style'', e_notes = None\<rparr>"

definition wont_fix_db :: triage_db where
  "wont_fix_db = \<lparr>db_findings = Some [(''f1'', entry_of ''false_positive''),
                                       (''f2'', entry_of ''wont_fix'')]\<rparr>"

section \<open>Properties of run\_lint\_on\_repo\<close>

lemma str_split_not_Nil: "str_split sep s \<noteq> []"
  by (induction sep s rule: str_split.induct) (auto split: list.splits)

lemma str_split_contains:
  "sep \<noteq> [] \<Longrightarrow> str_contains sep s \<Longrightarrow> 2 \<le> length (str_split sep s)"
proof (induction sep s rule: str_split.induct)
  case (1 sep)
  then show ?case by simp
next
  case (2 sep c s)
  show ?case
  proof (cases "startswith (c # s) sep")
    case True
    with 2 str_split_not_Nil [of sep "drop (length sep) (c # s)"] show ?thesis
      by (cases "str_split sep (drop (length sep) (c # s))") auto
  next
    case False
    with 2 have "2 \<le> length (str_split sep s)" by simp
    with False show ?thesis by (auto split: list.splits)
  qed
qed

text \<open>On a line that holds the marker neither indexing can fail: the first split has at
  least two pieces and the second at least one.\<close>

lemma extract_lint_name_marker:
  assumes "str_contains ''warning:'' line"
  shows "extract_lint_name line =
     Inr (py_strip (hd (str_split '':'' (py_strip (str_split ''warning:'' line ! 1)))))"
proof -
  have a: "1 < length (str_split ''warning:'' line)"
    using str_split_contains [OF _ assms] by simp
  have b: "0 < length (str_split '':'' s)" for s
    using str_split_not_Nil [of "'':''" s] by simp
  show ?thesis
    using a b
    by (simp add: extract_lint_name_def py_split_def py_index_def and_then_def Let_def hd_conv_nth)
qed

lemma dict_put_sum:
  "sum_list (map snd (dict_put k v d)) =
     sum_list (map snd d) + v - (case map_of d k of None \<Rightarrow> 0 | Some c \<Rightarrow> (c::int))"
  by (induction d) auto

lemma dict_incr_sum: "dict_values_sum (dict_incr k n d) = dict_values_sum d + n"
  by (simp add: dict_values_sum_def dict_incr_def dict_put_sum split: option.splits)

lemma map_of_dict_put: "map_of (dict_put k v d) = (map_of d)(k \<mapsto> v)"
  by (induction d) (auto simp: fun_eq_iff)

lemma count_line_cases:
  "count_line (t, d) line =
     (if str_contains ''warning:'' line
      then Inr (t + 1, dict_incr (py_strip (hd (str_split '':''
                  (py_strip (str_split ''warning:'' line ! 1))))) 1 d)
      else Inr (t, d))"
  by (simp add: count_line_def extract_lint_name_marker)

lemma count_lines_Inr:
  "\<exists>t' d'. count_lines (t, d) ls = Inr (t', d') \<and>
     t' - dict_values_sum d' = t - dict_values_sum d"
proof (induction ls arbitrary: t d)
  case Nil
  then show ?case by simp
next
  case (Cons l ls)
  show ?case
    using Cons [of "t + 1" "dict_incr (py_strip (hd (str_split '':''
                  (py_strip (str_split ''warning:'' l ! 1))))) 1 d"]
      Cons [of t d]
    by (auto simp: count_line_cases dict_incr_sum)
qed

lemma lint_try_body_cases:
  "lint_try_body w repo_name repo_path experimental n =
     (case analyzer w (analyzer_cmd repo_path experimental) of
        Inl e \<Rightarrow> Inl e
      | Inr oe \<Rightarrow> (case count_lines (0, []) (str_split [CHR 0x0A] (fst (snd oe) @ snd (snd oe))) of
            Inl e \<Rightarrow> Inl e
          | Inr st \<Rightarrow> Inr \<lparr>rr_name = repo_name, rr_total_findings = fst st,
                    rr_move_files = n, rr_lint_breakdown = snd st, rr_error = None\<rparr>))"
  by (auto simp: lint_try_body_def split: sum.splits prod.splits)


lemma lint_try_body_Inr:
  assumes "lint_try_body w repo_name repo_path experimental n = Inr r"
  shows "rr_name r = repo_name \<and> rr_total_findings r = dict_values_sum (rr_lint_breakdown r)"
proof -
  obtain oe where oe: "analyzer w (analyzer_cmd repo_path experimental) = Inr oe"
    using assms by (auto simp: lint_try_body_cases split: sum.splits)
  obtain t d where td: "count_lines (0, []) (str_split [CHR 0x0A] (fst (snd oe) @ snd (snd oe))) = Inr (t, d)"
     and eq: "t = dict_values_sum d"
    using count_lines_Inr [of 0 "[]" "str_split [CHR 0x0A] (fst (snd oe) @ snd (snd oe))"]
    by (auto simp: dict_values_sum_def)
  from assms oe td have "r = \<lparr>rr_name = repo_name, rr_total_findings = t,
                    rr_move_files = n, rr_lint_breakdown = d, rr_error = None\<rparr>"
    by (simp add: lint_try_body_cases)
  with eq show ?thesis by simp
qed

lemma run_lint_on_repo_invariant:
  "run_lint_on_repo w (repo_name, repo_path, experimental) = Inr r \<Longrightarrow>
     rr_name r = repo_name \<and> rr_total_findings r = dict_values_sum (rr_lint_breakdown r)"
  by (auto simp: run_lint_on_repo_def and_then_def Let_def dict_values_sum_def
      split: if_splits sum.splits py_exn.splits dest: lint_try_body_Inr)


















section \<open>Properties of the aggregation\<close>

lemma dict_put_sum_f:
  "sum_list (map (\<lambda>kv. f (snd kv)) (dict_put k v d)) =
     sum_list (map (\<lambda>kv. f (snd kv)) d) + f v - (case map_of d k of None \<Rightarrow> 0 | Some c \<Rightarrow> (f c :: int))"
  by (induction d) auto

lemma add_lint_sum:
  "sum_list (map (\<lambda>kv. le_count (snd kv)) (add_lint n kv d)) =
     sum_list (map (\<lambda>kv. le_count (snd kv)) d) + snd kv"
  by (cases kv) (simp add: add_lint_def Let_def dict_put_sum_f split: option.splits)

lemma fold_add_lint_sum:
  "sum_list (map (\<lambda>kv. le_count (snd kv)) (fold (add_lint n) kvs d)) =
     sum_list (map (\<lambda>kv. le_count (snd kv)) d) + dict_values_sum kvs"
  by (induction kvs arbitrary: d) (simp_all add: add_lint_sum dict_values_sum_def)

lemma fold_add_result_sum:
  "sum_list (map (\<lambda>kv. le_count (snd kv)) (fold add_result rs d)) =
     sum_list (map (\<lambda>kv. le_count (snd kv)) d)
       + sum_list (map (\<lambda>r. dict_values_sum (rr_lint_breakdown r)) rs)"
  by (induction rs arbitrary: d) (simp_all add: add_result_def fold_add_lint_sum)

lemma add_tier_info_count: "le_count (snd (add_tier_info md kv)) = le_count (snd kv)"
  by (cases kv) (simp add: add_tier_info_def split: option.splits)

lemma aggregate_rule_counts:
  "sum_rule_counts (aggregate w md repo_list results) =
     sum_list (map (\<lambda>r. dict_values_sum (rr_lint_breakdown r)) results)"
  by (simp add: sum_rule_counts_def aggregate_def Let_def o_def add_tier_info_count
      fold_add_result_sum)

lemma dict_put_fresh: "k \<notin> fst ` set d \<Longrightarrow> dict_put k v d = d @ [(k, v)]"
  by (induction d) auto

lemma fold_put_distinct:
  "distinct (map rr_name rs) \<Longrightarrow> set (map rr_name rs) \<inter> fst ` set d = {} \<Longrightarrow>
     fold (\<lambda>r. dict_put (rr_name r) (summary_of r)) rs d =
       d @ map (\<lambda>r. (rr_name r, summary_of r)) rs"
proof (induction rs arbitrary: d)
  case Nil
  then show ?case by simp
next
  case (Cons r rs)
  have fresh: "rr_name r \<notin> fst ` set d" using Cons.prems by auto
  have "set (map rr_name rs) \<inter> fst ` set (d @ [(rr_name r, summary_of r)]) = {}"
    using Cons.prems by auto
  with Cons.IH [of "d @ [(rr_name r, summary_of r)]"] Cons.prems fresh
  show ?case by (simp add: dict_put_fresh)
qed

lemma aggregate_repo_findings:
  "distinct (map rr_name results) \<Longrightarrow>
     sum_repo_findings (aggregate w md repo_list results) =
       sum_list (map rr_total_findings results)"
  using fold_put_distinct [of results "[]"]
  by (simp add: sum_repo_findings_def aggregate_def Let_def o_def summary_of_def)

lemma collect_result_invariant:
  "i < length items \<Longrightarrow>
   rr_name (collect_result w sch items i) = fst (items ! i) \<and>
   rr_total_findings (collect_result w sch items i) =
     dict_values_sum (rr_lint_breakdown (collect_result w sch items i))"
  using run_lint_on_repo_invariant [of w "fst (items ! i)" "fst (snd (items ! i))" "snd (snd (items ! i))"]
  by (auto simp: collect_result_def Let_def dict_values_sum_def split: option.splits sum.splits py_exn.splits)

lemma run_all_totals:
  "map rr_total_findings (run_all w sch items) =
     map (\<lambda>r. dict_values_sum (rr_lint_breakdown r)) (run_all w sch items)"
  by (simp add: run_all_def collect_result_invariant)

lemma run_all_names:
  "map rr_name (run_all w sch items) =
     map (\<lambda>i. fst (items ! i)) (sort_key (finish_time sch) [0 ..< length items])"
  by (simp add: run_all_def collect_result_invariant)

lemma run_all_distinct:
  assumes "distinct (map fst items)"
  shows "distinct (map rr_name (run_all w sch items))"
proof -
  have "inj_on (\<lambda>i. fst (items ! i)) {0 ..< length items}"
  proof (rule inj_onI)
    fix i j
    assume "i \<in> {0 ..< length items}" "j \<in> {0 ..< length items}"
      and eq: "fst (items ! i) = fst (items ! j)"
    then have ij: "i < length (map fst items)" "j < length (map fst items)" by simp_all
    from eq ij have "map fst items ! i = map fst items ! j" by simp
    with assms ij show "i = j" by (simp only: nth_eq_iff_index_eq)
  qed
  then show ?thesis
    by (simp add: run_all_names distinct_map)
qed

lemma dict_put_map_fst:
  "map fst (dict_put k v d) = (if k \<in> set (map fst d) then map fst d else map fst d @ [k])"
  by (induction d) (simp_all, force)

lemma dict_put_keys: "fst ` set (dict_put k v d) = insert k (fst ` set d)"
proof -
  have "set (map fst (dict_put k v d)) = insert k (set (map fst d))"
    by (auto simp: dict_put_map_fst)
  then show ?thesis by (simp only: set_map)
qed

lemma dict_put_set: "x \<in> set (dict_put k v d) \<Longrightarrow> x = (k, v) \<or> x \<in> set d"
  by (induction d) (auto split: if_splits)

lemma add_lint_keys: "fst ` set (add_lint n kv d) = insert (fst kv) (fst ` set d)"
  by (cases kv) (simp add: add_lint_def Let_def dict_put_keys)

lemma add_lint_untagged: "untagged d \<Longrightarrow> untagged (add_lint n kv d)"
proof -
  assume u: "untagged d"
  obtain l c where kv: "kv = (l, c)" by (cases kv)
  show ?thesis
  proof (cases "map_of d l")
    case None
    with u kv show ?thesis
      by (fastforce simp: untagged_def add_lint_def Let_def dest: dict_put_set)
  next
    case (Some e)
    then have "(l, e) \<in> set d" by (rule map_of_SomeD)
    with u have "le_tier e = None \<and> le_category e = None" by (auto simp: untagged_def)
    with u kv Some show ?thesis
      by (fastforce simp: untagged_def add_lint_def Let_def dest: dict_put_set)
  qed
qed

lemma fold_add_lint_props:
  "fst ` set (fold (add_lint n) kvs d) = fst ` set kvs \<union> fst ` set d \<and>
   (untagged d \<longrightarrow> untagged (fold (add_lint n) kvs d))"
  by (induction kvs arbitrary: d) (auto simp: add_lint_keys add_lint_untagged)

lemma fold_add_result_props:
  "fst ` set (fold add_result rs d) = (\<Union>r \<in> set rs. fst ` set (rr_lint_breakdown r)) \<union> fst ` set d \<and>
   (untagged d \<longrightarrow> untagged (fold add_result rs d))"
proof (induction rs arbitrary: d)
  case Nil
  then show ?case by simp
next
  case (Cons r rs)
  show ?case
    using Cons [of "add_result r d"] fold_add_lint_props [of "rr_name r" "rr_lint_breakdown r" d]
    by (auto simp: add_result_def)
qed

lemma add_tier_info_entry:
  assumes "le_tier e = None \<and> le_category e = None"
  shows "add_tier_info md (l, e) =
     (l, case map_of md l of
           Some m \<Rightarrow> e\<lparr>le_tier := Some (md_tier m), le_category := Some (md_category m)\<rparr>
         | None \<Rightarrow> e)"
  by (simp add: add_tier_info_def split: option.splits)

lemma add_tier_info_key: "fst (add_tier_info md kv) = fst kv"
  by (cases kv) (simp add: add_tier_info_def split: option.splits)

lemma dict_incr_lookup:
  "map_of (dict_incr k n d) = (map_of d)(k \<mapsto> (case map_of d k of None \<Rightarrow> 0 | Some c \<Rightarrow> c) + n)"
  by (simp add: dict_incr_def map_of_dict_put)

lemma fold_dict_incr_lookup:
  "map_of (fold (\<lambda>kv. dict_incr (f (snd kv)) (g (snd kv))) xs d) t =
     (if t \<in> f ` snd ` set xs \<or> map_of d t \<noteq> None
      then Some ((case map_of d t of None \<Rightarrow> 0 | Some c \<Rightarrow> c)
                 + sum_list (map g (filter (\<lambda>e. f e = t) (map snd xs))))
      else None)"
proof (induction xs arbitrary: d)
  case Nil
  then show ?case by (auto split: option.splits)
next
  case (Cons x xs)
  show ?case
    using Cons [of "dict_incr (f (snd x)) (g (snd x)) d"]
    by (auto simp: dict_incr_lookup split: option.splits)
qed

lemma scenario_run:
  "run_benchmark scenario_world in_order ''/repos'' True = Some scenario_snapshot"
  by code_simp

text \<open>
  C3, on the code. A line that holds the marker and no rule name, such as the one-line
  output \<open>warning:\<close>, is counted once in the total and once in the bucket of the empty
  rule name; no bucket \<open>unknown\<close> is made. (\<open>extract_lint_name_marker\<close> above: on a
  line with the marker the extraction never raises, so the \<open>except\<close> branch that
  would count under \<open>unknown\<close> is never taken.)
\<close>

theorem nameless_warning_bucket:
  "run_lint_on_repo (example_world (prints ''warning:'' []) ''A'') (''A'', ''/repos/A'', True) =
     Inr \<lparr>rr_name = ''A'', rr_total_findings = 1, rr_move_files = 1,
          rr_lint_breakdown = [([], 1)], rr_error = None\<rparr>"
  by code_simp

text \<open>
  C1, as stated, fails when the manifest lists a repository twice: both runs are summed
  into the grand total and into the per-rule counts, but the per-repository table is
  keyed by name and keeps one entry.
\<close>

theorem duplicate_repo_totals_differ:
  "map_option total_findings (run_benchmark duplicate_world in_order ''/repos'' True) = Some 2 \<and>
   map_option sum_rule_counts (run_benchmark duplicate_world in_order ''/repos'' True) = Some 2 \<and>
   map_option sum_repo_findings (run_benchmark duplicate_world in_order ''/repos'' True) = Some 1"
  by code_simp

text \<open>
  C1, amended. In every \<open>RepoResult\<close> that \<open>run_lint_on_repo\<close> returns, the total
  equals the sum of the values of \<open>lint_breakdown\<close>. In every snapshot that
  \<open>run_benchmark\<close> returns, the grand total equals the sum of the per-rule counts of
  \<open>by_lint\<close>; and when no repository is listed twice in the manifest it also equals
  the sum of the per-repository finding counts of \<open>repos\<close>.
\<close>

theorem snapshot_totals_agree:
  "(run_lint_on_repo w (repo_name, repo_path, flag) = Inr r \<longrightarrow>
      rr_total_findings r = dict_values_sum (rr_lint_breakdown r)) \<and>
   (run_benchmark w sch repos_dir experimental = Some s \<longrightarrow>
      total_findings s = sum_rule_counts s \<and>
      (\<forall>repo_list. load_repo_list w = Some repo_list \<and> distinct repo_list \<longrightarrow>
         total_findings s = sum_repo_findings s))"
proof (intro conjI impI allI)
  assume "run_lint_on_repo w (repo_name, repo_path, flag) = Inr r"
  then show "rr_total_findings r = dict_values_sum (rr_lint_breakdown r)"
    by (simp add: run_lint_on_repo_invariant)
next
  assume run: "run_benchmark w sch repos_dir experimental = Some s"
  then obtain repo_list where rl: "load_repo_list w = Some repo_list"
    by (auto simp: run_benchmark_def split: option.splits)
  define items where "items = map (\<lambda>repo. (repo, path_join w repos_dir repo, experimental)) repo_list"
  from run rl have s: "s = aggregate w (get_lint_metadata w) repo_list (run_all w sch items)"
    by (simp add: run_benchmark_def Let_def items_def)
  have tot: "total_findings s = sum_list (map rr_total_findings (run_all w sch items))"
    by (simp add: s aggregate_def Let_def)
  have rc: "sum_rule_counts s =
      sum_list (map (\<lambda>r. dict_values_sum (rr_lint_breakdown r)) (run_all w sch items))"
    unfolding s by (rule aggregate_rule_counts)
  show "total_findings s = sum_rule_counts s"
    unfolding tot rc by (simp only: run_all_totals)
  fix repo_list'
  assume "load_repo_list w = Some repo_list' \<and> distinct repo_list'"
  with rl have "distinct repo_list" by simp
  then have "distinct (map fst items)" by (simp add: items_def o_def)
  then have "distinct (map rr_name (run_all w sch items))" by (rule run_all_distinct)
  then have "sum_repo_findings s = sum_list (map rr_total_findings (run_all w sch items))"
    unfolding s by (rule aggregate_repo_findings)
  with tot show "total_findings s = sum_repo_findings s" by simp
qed

theorem snapshot_totals_agree_witness:
  "load_repo_list scenario_world = Some [''A'', ''B''] \<and> distinct [''A'', ''B''] \<and>
   run_benchmark scenario_world in_order ''/repos'' True = Some scenario_snapshot \<and>
   total_findings scenario_snapshot = 2 \<and> sum_rule_counts scenario_snapshot = 2 \<and>
   sum_repo_findings scenario_snapshot = 2"
proof -
  have l: "load_repo_list scenario_world = Some [''A'', ''B'']" by code_simp
  have t: "total_findings scenario_snapshot = 2" by (simp add: scenario_snapshot_def)
  from snapshot_totals_agree [where w = scenario_world and sch = in_order
      and repos_dir = "''/repos''" and experimental = True and s = scenario_snapshot]
    scenario_run l t
  show ?thesis by simp
qed

text \<open>
  C9, as stated, fails for a rule that the rule metadata does not list: its entry of
  \<open>by_lint\<close> has no tier field and no category field at all.
\<close>

theorem unlisted_rule_has_no_tier_field:
  "map_option rule_tags (run_benchmark unlisted_rule_world in_order ''/repos'' True) =
     Some [(''new_rule'', None, None)]"
  by code_simp

text \<open>
  C9, amended. Every rule counted in some result is a key of \<open>by_lint\<close>: none is
  dropped. The entry of a rule listed in the metadata carries the metadata's tier and
  category; the entry of a rule that is not listed has neither field, and reads as
  \<open>unknown\<close> through \<open>get\<close> with that default. Each key of \<open>by_tier\<close> and of
  \<open>by_category\<close> holds the sum of the counts of the rules that read as that tier,
  resp. category, so the unlisted rules are summed under \<open>unknown\<close>.
\<close>

theorem unknown_rules_kept_untagged:
  "(\<forall>r \<in> set results. \<forall>l \<in> fst ` set (rr_lint_breakdown r).
      l \<in> fst ` set (by_lint (aggregate w md repo_list results))) \<and>
   (\<forall>kv \<in> set (by_lint (aggregate w md repo_list results)).
      (case map_of md (fst kv) of
         Some m \<Rightarrow> le_tier (snd kv) = Some (md_tier m) \<and>
                   le_category (snd kv) = Some (md_category m)
       | None \<Rightarrow> le_tier (snd kv) = None \<and> le_category (snd kv) = None \<and>
                 tier_of (snd kv) = ''unknown'' \<and> category_of (snd kv) = ''unknown'')) \<and>
   (\<forall>t. map_of (by_tier (aggregate w md repo_list results)) t =
      (if t \<in> tier_of ` snd ` set (by_lint (aggregate w md repo_list results))
       then Some (tier_total t (by_lint (aggregate w md repo_list results))) else None)) \<and>
   (\<forall>c. map_of (by_category (aggregate w md repo_list results)) c =
      (if c \<in> category_of ` snd ` set (by_lint (aggregate w md repo_list results))
       then Some (category_total c (by_lint (aggregate w md repo_list results))) else None))"
proof -
  define raw where "raw = fold add_result results []"
  define lints where "lints = map (add_tier_info md) raw"
  have bl: "by_lint (aggregate w md repo_list results) = lints"
    by (simp add: aggregate_def Let_def lints_def raw_def)
  have bt: "by_tier (aggregate w md repo_list results) =
      fold (\<lambda>kv. dict_incr (tier_of (snd kv)) (le_count (snd kv))) lints []"
    by (simp add: aggregate_def Let_def lints_def raw_def case_prod_unfold)
  have bc: "by_category (aggregate w md repo_list results) =
      fold (\<lambda>kv. dict_incr (category_of (snd kv)) (le_count (snd kv))) lints []"
    by (simp add: aggregate_def Let_def lints_def raw_def case_prod_unfold)
  have keys: "fst ` set raw = (\<Union>r \<in> set results. fst ` set (rr_lint_breakdown r))"
    and unt: "untagged raw"
    using fold_add_result_props [of results "[]"] by (simp_all add: raw_def untagged_def)
  have k2: "fst ` set lints = fst ` set raw"
    by (simp add: lints_def image_image add_tier_info_key)
  have p1: "\<forall>r \<in> set results. \<forall>l \<in> fst ` set (rr_lint_breakdown r). l \<in> fst ` set lints"
    unfolding k2 keys by blast
  have p2: "\<forall>kv \<in> set lints.
      (case map_of md (fst kv) of
         Some m \<Rightarrow> le_tier (snd kv) = Some (md_tier m) \<and>
                   le_category (snd kv) = Some (md_category m)
       | None \<Rightarrow> le_tier (snd kv) = None \<and> le_category (snd kv) = None \<and>
                 tier_of (snd kv) = ''unknown'' \<and> category_of (snd kv) = ''unknown'')"
  proof
    fix kv assume "kv \<in> set lints"
    then obtain l e where le: "(l, e) \<in> set raw" and kv: "kv = add_tier_info md (l, e)"
      by (auto simp: lints_def)
    from le unt have "le_tier e = None \<and> le_category e = None"
      by (auto simp: untagged_def)
    then show "case map_of md (fst kv) of
         Some m \<Rightarrow> le_tier (snd kv) = Some (md_tier m) \<and>
                   le_category (snd kv) = Some (md_category m)
       | None \<Rightarrow> le_tier (snd kv) = None \<and> le_category (snd kv) = None \<and>
                 tier_of (snd kv) = ''unknown'' \<and> category_of (snd kv) = ''unknown''"
      by (simp add: kv add_tier_info_def tier_of_def category_of_def split: option.splits)
  qed
  have p3: "\<forall>t. map_of (fold (\<lambda>kv. dict_incr (tier_of (snd kv)) (le_count (snd kv))) lints []) t =
      (if t \<in> tier_of ` snd ` set lints then Some (tier_total t lints) else None)"
    by (simp add: fold_dict_incr_lookup tier_total_def)
  have p4: "\<forall>c. map_of (fold (\<lambda>kv. dict_incr (category_of (snd kv)) (le_count (snd kv))) lints []) c =
      (if c \<in> category_of ` snd ` set lints then Some (category_total c lints) else None)"
    by (simp add: fold_dict_incr_lookup category_total_def)
  show ?thesis
    unfolding bl bt bc using p1 p2 p3 p4 by blast
qed

theorem unknown_rules_kept_untagged_witness:
  "rule_tags (aggregate unlisted_rule_world [] [''A''] [unlisted_result]) =
     [(''new_rule'', None, None)] \<and>
   map_of (by_tier (aggregate unlisted_rule_world [] [''A''] [unlisted_result])) ''unknown'' =
     Some 1 \<and>
   map_of (by_category (aggregate unlisted_rule_world [] [''A''] [unlisted_result])) ''unknown'' =
     Some 1"
proof -
  have bl: "by_lint (aggregate unlisted_rule_world [] [''A''] [unlisted_result]) =
      [(''new_rule'', \<lparr>le_count = 1, le_repos = [''A''], le_tier = None, le_category = None\<rparr>)]"
    by code_simp
  from unknown_rules_kept_untagged [of "[unlisted_result]" unlisted_rule_world "[]" "[''A'']"]
  show ?thesis
    unfolding bl
    by (simp add: rule_tags_def bl tier_total_def category_total_def tier_of_def category_of_def)
qed

section \<open>Properties of compare\_baselines\<close>

lemma changed_rows_self: "changed_rows c c ks = []"
  by (induction ks) (simp_all add: changed_rows_def delta_of_def row_delta_def)

lemma changed_rows_names:
  "map row_name (changed_rows oc nc ks) = filter (\<lambda>l. nc l - oc l \<noteq> 0) ks"
  by (induction ks) (simp_all add: changed_rows_def delta_of_def row_delta_def row_name_def)

text \<open>What the lint table holds before it is cut to 20 rows, whatever the hashing: one
  row for each rule of either table whose count changed, rows of larger change first.\<close>

lemma set_iter_set: "set (set_iter h xs) = set xs" and set_iter_distinct: "distinct (set_iter h xs)"
  by (simp_all add: set_iter_def)

lemma changed_rows_set:
  "set (changed_rows oc nc ks) = {delta_of oc nc l | l. l \<in> set ks \<and> nc l - oc l \<noteq> 0}"
  unfolding changed_rows_def delta_of_def row_delta_def by auto

lemma by_magnitude_props:
  "set (by_magnitude rs) = set rs \<and> sorted (map (\<lambda>r. - \<bar>row_delta r\<bar>) (by_magnitude rs)) \<and>
   (distinct (map row_name rs) \<longrightarrow> distinct (map row_name (by_magnitude rs)))"
  by (simp add: by_magnitude_def distinct_map)

lemma lint_changes_ranked:
  "set (lint_changes h old new) =
     {delta_of (lint_count (get_dict (b_by_lint old))) (lint_count (get_dict (b_by_lint new))) l | l.
        l \<in> fst ` set (get_dict (b_by_lint old)) \<union> fst ` set (get_dict (b_by_lint new)) \<and>
        lint_count (get_dict (b_by_lint new)) l - lint_count (get_dict (b_by_lint old)) l \<noteq> 0} \<and>
   sorted (map (\<lambda>r. - \<bar>row_delta r\<bar>) (lint_changes h old new)) \<and>
   distinct (map row_name (lint_changes h old new))"
proof -
  define oc where "oc = lint_count (get_dict (b_by_lint old))"
  define nc where "nc = lint_count (get_dict (b_by_lint new))"
  define ks where "ks = set_iter h (map fst (get_dict (b_by_lint old)) @ map fst (get_dict (b_by_lint new)))"
  have ks: "set ks = fst ` set (get_dict (b_by_lint old)) \<union> fst ` set (get_dict (b_by_lint new))"
    by (simp add: ks_def set_iter_set)
  have dks: "distinct ks" by (simp add: ks_def set_iter_distinct)
  have lc: "lint_changes h old new = by_magnitude (changed_rows oc nc ks)"
    by (simp add: lint_changes_def Let_def oc_def nc_def ks_def)
  have b: "distinct (map row_name (changed_rows oc nc ks))"
    using dks by (simp add: changed_rows_names)
  show ?thesis
    unfolding lc oc_def [symmetric] nc_def [symmetric]
    using by_magnitude_props [of "changed_rows oc nc ks"] b
    by (simp add: changed_rows_set ks)
qed

text \<open>
  C4. Comparing a snapshot with itself gives, whatever the hashing of the process: three
  overall rows, each with delta zero; tier rows with delta zero only; no lint row and
  no count of omitted lint rows; no new and no removed lint; no repository row; and the
  verdict \<open>NoChange\<close>.
\<close>

theorem self_comparison_no_change:
  "length (overall_rows (compare_baselines h s s)) = 3 \<and>
   (\<forall>r \<in> set (overall_rows (compare_baselines h s s)). row_delta r = 0) \<and>
   (\<forall>r \<in> set (tier_rows (compare_baselines h s s)). row_delta r = 0) \<and>
   lint_rows (compare_baselines h s s) = [] \<and>
   lint_rows_omitted (compare_baselines h s s) = None \<and>
   new_lint_rows (compare_baselines h s s) = [] \<and>
   removed_lint_rows (compare_baselines h s s) = [] \<and>
   repo_rows (compare_baselines h s s) = [] \<and>
   cmp_verdict (compare_baselines h s s) = NoChange"
  by (auto simp: compare_baselines_def Let_def lint_changes_def repo_changes_def changed_rows_self
      by_magnitude_def row_delta_def delta_of_def py_sorted_def)

theorem self_comparison_no_change_witness:
  "overall_rows (compare_baselines hash_a_first tie_new tie_new) =
     [(''Total repos'', 1, 1, 0), (''Repos with findings'', 1, 1, 0),
      (''Total findings'', 2, 2, 0)] \<and>
   tier_rows (compare_baselines hash_a_first tie_new tie_new) = [(''stable'', 2, 2, 0)] \<and>
   row_delta (''stable'', 2, 2, 0) = 0 \<and>
   lint_rows (compare_baselines hash_a_first tie_new tie_new) = [] \<and>
   cmp_verdict (compare_baselines hash_a_first tie_new tie_new) = NoChange"
proof -
  have rows: "overall_rows (compare_baselines hash_a_first tie_new tie_new) =
     [(''Total repos'', 1, 1, 0), (''Repos with findings'', 1, 1, 0),
      (''Total findings'', 2, 2, 0)] \<and>
    tier_rows (compare_baselines hash_a_first tie_new tie_new) = [(''stable'', 2, 2, 0)]"
    by code_simp
  from self_comparison_no_change [of hash_a_first tie_new] rows
  show ?thesis by simp
qed

text \<open>
  C5, on the code. The lint table of the same two snapshots under the string hashing of
  two processes: the two rules changed by the same amount, the stable sort leaves them
  in the order in which the set of rule names was visited, and the two reports differ.
  (The tier table and the new and removed lints are visited through \<open>sorted\<close> and do
  not depend on the hashing.)
\<close>

theorem tied_lint_rows_follow_hashing:
  "lint_rows (compare_baselines hash_a_first tie_old tie_new) = [(''a'', 0, 1, 1), (''b'', 0, 1, 1)] \<and>
   lint_rows (compare_baselines hash_b_first tie_old tie_new) = [(''b'', 0, 1, 1), (''a'', 0, 1, 1)]"
proof
  show "lint_rows (compare_baselines hash_a_first tie_old tie_new) =
      [(''a'', 0, 1, 1), (''b'', 0, 1, 1)]"
    by code_simp
  show "lint_rows (compare_baselines hash_b_first tie_old tie_new) =
      [(''b'', 0, 1, 1), (''a'', 0, 1, 1)]"
    by code_simp
qed

section \<open>Properties of the rounding\<close>

lemma round_half_even_bounds:
  "of_int (round_half_even y) \<le> y + 1 / 2 \<and> y - 1 / 2 \<le> of_int (round_half_even y)"
proof -
  have a: "of_int \<lfloor>y\<rfloor> \<le> y" and b: "y < of_int \<lfloor>y\<rfloor> + 1" by linarith+
  consider (low) "y - of_int \<lfloor>y\<rfloor> < 1 / 2" | (high) "1 / 2 < y - of_int \<lfloor>y\<rfloor>"
    | (tie) "y - of_int \<lfloor>y\<rfloor> = 1 / 2" by linarith
  then show ?thesis
  proof cases
    case low
    then have e: "round_half_even y = \<lfloor>y\<rfloor>" by (simp add: round_half_even_def Let_def)
    show ?thesis unfolding e using a low by linarith
  next
    case high
    then have e: "round_half_even y = \<lfloor>y\<rfloor> + 1" by (simp add: round_half_even_def Let_def)
    show ?thesis unfolding e using b high by (simp; linarith?)
  next
    case tie
    then have "round_half_even y = \<lfloor>y\<rfloor> \<or> round_half_even y = \<lfloor>y\<rfloor> + 1"
      by (simp add: round_half_even_def Let_def)
    then show ?thesis
    proof
      assume e: "round_half_even y = \<lfloor>y\<rfloor>"
      show ?thesis unfolding e using tie by linarith
    next
      assume e: "round_half_even y = \<lfloor>y\<rfloor> + 1"
      show ?thesis unfolding e using tie by (simp; linarith?)
    qed
  qed
qed

lemma round_half_even_le:
  assumes "y \<le> of_int n"
  shows "round_half_even y \<le> n"
proof -
  have fl: "\<lfloor>y\<rfloor> \<le> n" using assms by (simp add: floor_le_iff) 
  show ?thesis
  proof (cases "y = of_int \<lfloor>y\<rfloor>")
    case True
    then have "y - of_int \<lfloor>y\<rfloor> = 0" by simp
    then show ?thesis using fl by (simp add: round_half_even_def Let_def)
  next
    case False
    then have "of_int \<lfloor>y\<rfloor> < y" using of_int_floor_le [of y] by linarith
    with assms have "of_int \<lfloor>y\<rfloor> < (of_int n :: rat)" by linarith
    then have "\<lfloor>y\<rfloor> < n" by simp
    then show ?thesis by (auto simp: round_half_even_def Let_def)
  qed
qed

lemma round_half_even_nonneg: "0 \<le> y \<Longrightarrow> 0 \<le> round_half_even y"
  by (auto simp: round_half_even_def Let_def)

lemma float_exponent_le:
  assumes "0 < x" "x < 2 ^ k" "0 < k"
  shows "float_exponent x < int k"
proof (cases "1 \<le> x")
  case True
  have "\<lfloor>x\<rfloor> < 2 ^ k" using assms(2) by (simp add: floor_less_iff)
  then have "bitlen \<lfloor>x\<rfloor> \<le> int k" by (simp add: bitlen_le_iff_power)
  with True show ?thesis by (simp add: float_exponent_def)
next
  case False
  have "0 \<le> bitlen (\<lceil>1 / x\<rceil> - 1)" by (rule bitlen_nonneg)
  with False have "float_exponent x \<le> 0" by (simp add: float_exponent_def)
  with assms(3) show ?thesis by simp
qed

lemma ulp_at_pos: "0 < ulp_at x"
  by (simp add: ulp_at_def zero_less_power_int)

lemma to_float_pos: "0 < x \<Longrightarrow> to_float x = of_int (round_half_even (x / ulp_at x)) * ulp_at x"
  by (simp add: to_float_def ulp_at_def Let_def)

lemma to_float_nonneg: "0 \<le> x \<Longrightarrow> 0 \<le> to_float x"
proof (cases "x = 0")
  case True
  then show ?thesis by (simp add: to_float_def)
next
  case False
  assume "0 \<le> x"
  with False have x: "0 < x" by simp
  have "0 \<le> x / ulp_at x" using x ulp_at_pos [of x] by simp
  then have "0 \<le> round_half_even (x / ulp_at x)" by (rule round_half_even_nonneg)
  then show ?thesis using ulp_at_pos [of x] by (simp add: to_float_pos [OF x])
qed

lemma to_float_le:
  assumes x: "0 < x" and le: "x \<le> of_int m" and e: "float_exponent x \<le> 52"
  shows "to_float x \<le> of_int m"
proof -
  define n where "n = nat (52 - max (float_exponent x) (- 1022))"
  have "max (float_exponent x) (- 1022) - 52 = - int n" using e by (simp add: n_def)
  then have u: "ulp_at x = 1 / 2 ^ n"
    by (simp add: ulp_at_def power_int_minus_divide)
  have "x / ulp_at x = x * 2 ^ n" by (simp add: u)
  also have "\<dots> \<le> of_int m * 2 ^ n" using le by simp
  also have "\<dots> = of_int (m * 2 ^ n)" by simp
  finally have "round_half_even (x / ulp_at x) \<le> m * 2 ^ n" by (rule round_half_even_le)
  then have "(of_int (round_half_even (x / ulp_at x)) :: rat) \<le> of_int (m * 2 ^ n)"
    by (simp only: of_int_le_iff)
  then have "of_int (round_half_even (x / ulp_at x)) * ulp_at x \<le> of_int (m * 2 ^ n) * ulp_at x"
    using ulp_at_pos [of x] by (simp only: mult_le_cancel_right_pos)
  also have "of_int (m * 2 ^ n) * ulp_at x = of_int m" by (simp add: u)
  finally show ?thesis by (simp only: to_float_pos [OF x])
qed

lemma to_float_error:
  assumes x: "0 \<le> x" and e: "x = 0 \<or> float_exponent x \<le> b" and b: "- 1022 \<le> b"
  shows "\<bar>to_float x - x\<bar> \<le> 2 powi (b - 53)"
proof (cases "x = 0")
  case True
  then show ?thesis by (simp add: to_float_def zero_less_power_int less_imp_le)
next
  case False
  with x have xp: "0 < x" by simp
  from False e have e': "float_exponent x \<le> b" by simp
  let ?y = "x / ulp_at x"
  have "\<bar>of_int (round_half_even ?y) - ?y\<bar> \<le> 1 / 2"
    using round_half_even_bounds [of ?y] by linarith
  then have "\<bar>of_int (round_half_even ?y) - ?y\<bar> * ulp_at x \<le> 1 / 2 * ulp_at x"
    using ulp_at_pos [of x] by (simp only: mult_le_cancel_right_pos)
  moreover have "\<bar>of_int (round_half_even ?y) - ?y\<bar> * ulp_at x = \<bar>to_float x - x\<bar>"
  proof -
    have "\<bar>of_int (round_half_even ?y) - ?y\<bar> * ulp_at x
        = \<bar>(of_int (round_half_even ?y) - ?y) * ulp_at x\<bar>"
      using ulp_at_pos [of x] by (simp add: abs_mult)
    also have "(of_int (round_half_even ?y) - ?y) * ulp_at x = to_float x - x"
      using ulp_at_pos [of x] by (simp add: to_float_pos [OF xp] left_diff_distrib)
    finally show ?thesis .
  qed
  moreover have "1 / 2 * ulp_at x \<le> 2 powi (b - 53)"
  proof -
    have "1 / 2 * ulp_at x = 2 powi (max (float_exponent x) (- 1022) - 52 - 1)"
      by (simp add: ulp_at_def power_int_diff)
    also have "\<dots> \<le> 2 powi (b - 53)"
      using e' b by (intro power_int_increasing) simp_all
    finally show ?thesis .
  qed
  ultimately show ?thesis by linarith
qed

lemma float_exponent_unit: "0 < x \<Longrightarrow> x \<le> 1 \<Longrightarrow> float_exponent x \<le> 0"
  using float_exponent_le [of x 1] by simp

lemma float_exponent_percent: "0 < x \<Longrightarrow> x \<le> 100 \<Longrightarrow> float_exponent x \<le> 6"
  using float_exponent_le [of x 7] by simp

lemma true_div_props:
  assumes "0 \<le> a" "a \<le> t" "0 < t"
  shows "0 \<le> true_div a t \<and> true_div a t \<le> 1 \<and>
         \<bar>true_div a t - of_int a / of_int t\<bar> \<le> 1 / 2 ^ 53"
proof -
  define x where "x = (of_int a / of_int t :: rat)"
  have x0: "0 \<le> x" and x1: "x \<le> 1" using assms by (simp_all add: x_def)
  have e: "x = 0 \<or> float_exponent x \<le> 0"
    using x0 x1 float_exponent_unit [of x] by (cases "x = 0") simp_all
  have le: "to_float x \<le> 1"
  proof (cases "x = 0")
    case True
    then show ?thesis by (simp add: to_float_def)
  next
    case False
    with x0 have xp: "0 < x" by simp
    from False e have "float_exponent x \<le> 52" by simp
    with to_float_le [OF xp, of 1] x1 show ?thesis by simp
  qed
  have "\<bar>to_float x - x\<bar> \<le> 2 powi (0 - 53)"
    using x0 e by (rule to_float_error) simp
  then have "\<bar>to_float x - x\<bar> \<le> 1 / 2 ^ 53" by (simp add: power_int_minus_divide)
  with le to_float_nonneg [OF x0] show ?thesis
    unfolding true_div_def x_def [symmetric] by simp
qed

lemma percent_props:
  assumes "0 \<le> q" "q \<le> 1"
  shows "0 \<le> py_fmul q 100 \<and> py_fmul q 100 \<le> 100 \<and> \<bar>py_fmul q 100 - q * 100\<bar> \<le> 1 / 2 ^ 47"
proof -
  define x where "x = q * 100"
  have x0: "0 \<le> x" and x1: "x \<le> 100" using assms by (simp_all add: x_def)
  have e: "x = 0 \<or> float_exponent x \<le> 6"
    using x0 x1 float_exponent_percent [of x] by (cases "x = 0") simp_all
  have le: "to_float x \<le> 100"
  proof (cases "x = 0")
    case True
    then show ?thesis by (simp add: to_float_def)
  next
    case False
    with x0 have xp: "0 < x" by simp
    from False e have "float_exponent x \<le> 52" by simp
    with to_float_le [OF xp, of 100] x1 show ?thesis by simp
  qed
  have "\<bar>to_float x - x\<bar> \<le> 2 powi (6 - 53)"
    using x0 e by (rule to_float_error) simp
  then have "\<bar>to_float x - x\<bar> \<le> 1 / 2 ^ 47" by (simp add: power_int_minus_divide)
  with le to_float_nonneg [OF x0] show ?thesis
    unfolding py_fmul_def x_def [symmetric] by simp
qed

lemma rate_props:
  assumes "0 \<le> a" "a \<le> t" "0 < t"
  shows "0 \<le> py_fmul (true_div a t) 100 \<and> py_fmul (true_div a t) 100 \<le> 100 \<and>
         \<bar>py_fmul (true_div a t) 100 - of_int a / of_int t * 100\<bar> \<le> 41 / 2 ^ 51"
proof -
  define q where "q = true_div a t"
  define x where "x = (of_int a / of_int t :: rat)"
  define r where "r = py_fmul q 100"
  from true_div_props [OF assms]
  have q: "0 \<le> q" "q \<le> 1" and qe: "\<bar>q - x\<bar> \<le> 1 / 2 ^ 53" by (simp_all add: q_def x_def)
  from percent_props [OF q]
  have r: "0 \<le> r" "r \<le> 100" and re: "\<bar>r - q * 100\<bar> \<le> 1 / 2 ^ 47" by (simp_all add: r_def)
  from qe have q1: "q - x \<le> 1 / 2 ^ 53" and q2: "x - q \<le> 1 / 2 ^ 53" by linarith+
  from re have r1: "r - q * 100 \<le> 1 / 2 ^ 47" and r2: "q * 100 - r \<le> 1 / 2 ^ 47" by linarith+
  have "r - x * 100 \<le> 41 / 2 ^ 51" "x * 100 - r \<le> 41 / 2 ^ 51"
    using q1 q2 r1 r2 by simp_all
  then have "\<bar>r - x * 100\<bar> \<le> 41 / 2 ^ 51" by linarith
  then show ?thesis using r unfolding r_def q_def x_def by simp
qed

lemma rates_sum:
  assumes "0 \<le> a" "0 \<le> b" "0 < a + b"
  shows "\<bar>py_fmul (true_div a (a + b)) 100 + py_fmul (true_div b (a + b)) 100 - 100\<bar> \<le> 1 / 2 ^ 44"
proof -
  define ra where "ra = py_fmul (true_div a (a + b)) 100"
  define rb where "rb = py_fmul (true_div b (a + b)) 100"
  define c where "c = (of_int (a + b) :: rat)"
  define xa where "xa = of_int a / c"
  define xb where "xb = of_int b / c"
  have c: "0 < c" "of_int a + of_int b = c" using assms(3) by (simp_all add: c_def)
  have a: "\<bar>ra - xa * 100\<bar> \<le> 41 / 2 ^ 51"
    using rate_props [of a "a + b"] assms by (simp add: ra_def xa_def c_def)
  have b: "\<bar>rb - xb * 100\<bar> \<le> 41 / 2 ^ 51"
    using rate_props [of b "a + b"] assms by (simp add: rb_def xb_def c_def)
  have "xa + xb = (of_int a + of_int b) / c"
    unfolding xa_def xb_def by (simp only: add_divide_distrib)
  also have "\<dots> = 1" using c by simp
  finally have "xa + xb = 1" .
  with a b have "\<bar>ra + rb - 100\<bar> \<le> 41 / 2 ^ 51 + 41 / 2 ^ 51" by linarith
  also have "\<dots> \<le> 1 / 2 ^ 44" by simp
  finally show ?thesis unfolding ra_def rb_def .
qed

section \<open>Properties of calculate\_metrics and generate\_report\<close>

lemma append_to_lookup:
  "map_of (append_to k x d) = (map_of d)(k \<mapsto> (case map_of d k of None \<Rightarrow> [] | Some xs \<Rightarrow> xs) @ [x])"
  by (simp add: append_to_def map_of_dict_put)

lemma append_to_keys: "map fst (append_to k x d) = (if k \<in> set (map fst d) then map fst d else map fst d @ [k])"
  by (simp add: append_to_def dict_put_map_fst)

lemma fold_append_lookup:
  "map_of (fold (\<lambda>f. append_to (f_lint f) f) fs d) l =
     (let old = (case map_of d l of None \<Rightarrow> [] | Some xs \<Rightarrow> xs);
          new = filter (\<lambda>f. f_lint f = l) fs
      in if map_of d l = None \<and> new = [] then None else Some (old @ new))"
proof (induction fs arbitrary: d)
  case Nil
  then show ?case by (auto simp: Let_def split: option.splits)
next
  case (Cons f fs)
  show ?case
    unfolding fold_simps Cons [of "append_to (f_lint f) f d"]
    by (auto simp: Let_def append_to_lookup split: option.splits)
qed

lemma fold_append_distinct:
  "distinct (map fst d) \<Longrightarrow> distinct (map fst (fold (\<lambda>f. append_to (f_lint f) f) fs d))"
  by (induction fs arbitrary: d) (simp_all add: append_to_keys)

lemma group_by_lint_lookup:
  "map_of (group_by_lint fs) l =
     (if filter (\<lambda>f. f_lint f = l) fs = [] then None else Some (filter (\<lambda>f. f_lint f = l) fs))"
  by (simp add: group_by_lint_def fold_append_lookup Let_def)

lemma group_by_lint_distinct: "distinct (map fst (group_by_lint fs))"
  by (simp add: group_by_lint_def fold_append_distinct)

lemma map_of_map_snd:
  "map_of (map (\<lambda>kv. (fst kv, g (snd kv))) xs) k = map_option g (map_of xs k)"
  by (induction xs) auto

lemma calculate_metrics_lookup:
  "map_of (calculate_metrics d) l =
     (if lint_findings d l = [] then None else Some (metrics_of (lint_findings d l)))"
  by (simp add: calculate_metrics_def map_of_map_snd group_by_lint_lookup lint_findings_def)

lemma calculate_metrics_distinct: "distinct (map fst (calculate_metrics d))"
  using group_by_lint_distinct [of "td_findings d"]
  by (simp add: calculate_metrics_def o_def)

lemma count_class_append: "count_class c (xs @ ys) = count_class c xs + count_class c ys"
  by (simp add: count_class_def)

lemma append_to_count:
  "sum_list (map (\<lambda>kv. count_class c (snd kv)) (append_to k x d)) =
     sum_list (map (\<lambda>kv. count_class c (snd kv)) d) + count_class c [x]"
  by (simp add: append_to_def dict_put_sum_f count_class_append split: option.splits)
     (simp add: count_class_def)

lemma fold_append_count:
  "sum_list (map (\<lambda>kv. count_class c (snd kv)) (fold (\<lambda>f. append_to (f_lint f) f) fs d)) =
     sum_list (map (\<lambda>kv. count_class c (snd kv)) d) + count_class c fs"
proof (induction fs arbitrary: d)
  case Nil
  then show ?case by (simp add: count_class_def)
next
  case (Cons f fs)
  have "count_class c (f # fs) = count_class c [f] + count_class c fs"
    using count_class_append [of c "[f]" fs] by simp
  then show ?case by (simp add: Cons append_to_count)
qed

lemma group_by_lint_count:
  "sum_list (map (\<lambda>kv. count_class c (snd kv)) (group_by_lint fs)) = count_class c fs"
  by (simp add: group_by_lint_def fold_append_count)

lemma metrics_totals:
  "sum_list (map (\<lambda>kv. m_tp (snd kv)) (calculate_metrics d)) = count_class ''TP'' (td_findings d)"
  "sum_list (map (\<lambda>kv. m_fp (snd kv)) (calculate_metrics d)) = count_class ''FP'' (td_findings d)"
  using group_by_lint_count [of "''TP''" "td_findings d"] group_by_lint_count [of "''FP''" "td_findings d"]
  by (simp_all add: calculate_metrics_def o_def metrics_of_def Let_def)

lemma count_class_nonneg: "0 \<le> count_class c fs"
  by (simp add: count_class_def)

lemma exn_map_Inr: "exn_map g xs = Inr ys \<Longrightarrow> x \<in> set xs \<Longrightarrow> \<exists>y. g x = Inr y"
  by (induction xs arbitrary: ys) (auto split: sum.splits)

lemma write_fp_section_raises: "\<exists>e. write_fp_section kv = Inl e"
  by (cases kv) (auto simp: write_fp_section_def and_then_def set_slice_def split: sum.splits)

lemma fp_sections_raise:
  assumes "fs \<noteq> []"
  shows "\<exists>e. exn_map write_fp_section (group_by_lint fs) = Inl e"
proof -
  from assms obtain f where f: "f \<in> set fs" by (cases fs) auto
  then have "filter (\<lambda>g. f_lint g = f_lint f) fs \<noteq> []" by (auto simp: filter_empty_conv)
  then have "map_of (group_by_lint fs) (f_lint f) \<noteq> None" by (simp add: group_by_lint_lookup)
  then obtain xs where "(f_lint f, xs) \<in> set (group_by_lint fs)" by (auto dest: map_of_SomeD)
  with exn_map_Inr [of write_fp_section "group_by_lint fs" _ "(f_lint f, xs)"]
    write_fp_section_raises [of "(f_lint f, xs)"]
  show ?thesis by (cases "exn_map write_fp_section (group_by_lint fs)") auto
qed

lemma generate_report_Inr:
  assumes "generate_report metrics d = Inr r"
  shows "sum_list (map (\<lambda>kv. m_tp (snd kv)) metrics) + sum_list (map (\<lambda>kv. m_fp (snd kv)) metrics) \<noteq> 0 \<and>
         (\<exists>ss. exn_map write_fp_section
                 (group_by_lint (filter (\<lambda>f. f_classification f = ''FP'') (td_findings d))) = Inr ss) \<and>
         r_promote r = promotable metrics"
  using assms
  by (auto simp: generate_report_def Let_def and_then_def py_truediv_def split: sum.splits if_splits)

text \<open>
  C6, as stated, fails in the floats of the code: for a rule with one true and two false
  positives the two percentages are the floats nearest below 200/3 and 100/3, and their
  sum is \<open>100 - 2\<^sup>-\<^sup>4\<^sup>6\<close>, not 100.
\<close>

theorem thirds_do_not_add_up:
  "map_option rate_sum (map_of (calculate_metrics thirds) ''R'') = Some (100 - 1 / 2 ^ 46)"
  by code_simp

text \<open>
  C6, amended. For every rule of a triage dataset, \<open>tp\<close> and \<open>fp\<close> count the findings
  of the rule classified \<open>TP\<close> and \<open>FP\<close> (those classified \<open>INFO\<close>, \<open>SKIP\<close> or anything
  else enter neither); \<open>fp_rate\<close> is the float product by 100 of the float quotient
  \<open>fp / (tp + fp)\<close>, and \<open>precision\<close> that of \<open>tp / (tp + fp)\<close>, when \<open>tp + fp > 0\<close>;
  both lie between 0 and 100; each is within \<open>41 / 2\<^sup>5\<^sup>1\<close> of the exact percentage and
  their sum is within \<open>2\<^sup>-\<^sup>4\<^sup>4\<close> of 100 when \<open>tp + fp > 0\<close>; and both are 0 when
  \<open>tp + fp = 0\<close>.
\<close>

theorem metrics_rates:
  "map_of (calculate_metrics d) l = Some m \<longrightarrow>
     m_tp m = count_class ''TP'' (lint_findings d l) \<and>
     m_fp m = count_class ''FP'' (lint_findings d l) \<and>
     m_fp_rate m = (if 0 < m_tp m + m_fp m
                    then py_fmul (true_div (m_fp m) (m_tp m + m_fp m)) 100 else 0) \<and>
     m_precision m = (if 0 < m_tp m + m_fp m
                      then py_fmul (true_div (m_tp m) (m_tp m + m_fp m)) 100 else 0) \<and>
     0 \<le> m_fp_rate m \<and> m_fp_rate m \<le> 100 \<and> 0 \<le> m_precision m \<and> m_precision m \<le> 100 \<and>
     (0 < m_tp m + m_fp m \<longrightarrow>
        \<bar>m_fp_rate m - of_int (m_fp m) / of_int (m_tp m + m_fp m) * 100\<bar> \<le> 41 / 2 ^ 51 \<and>
        \<bar>m_precision m - of_int (m_tp m) / of_int (m_tp m + m_fp m) * 100\<bar> \<le> 41 / 2 ^ 51 \<and>
        \<bar>m_fp_rate m + m_precision m - 100\<bar> \<le> 1 / 2 ^ 44) \<and>
     (m_tp m + m_fp m = 0 \<longrightarrow> m_fp_rate m = 0 \<and> m_precision m = 0)"
proof
  assume "map_of (calculate_metrics d) l = Some m"
  then have m: "m = metrics_of (lint_findings d l)"
    by (simp add: calculate_metrics_lookup split: if_splits)
  define tp where "tp = count_class ''TP'' (lint_findings d l)"
  define fp where "fp = count_class ''FP'' (lint_findings d l)"
  have nn: "0 \<le> tp" "0 \<le> fp" by (simp_all add: tp_def fp_def count_class_nonneg)
  have mt: "m_tp m = tp" and mf: "m_fp m = fp"
    by (simp_all add: m metrics_of_def Let_def tp_def fp_def)
  have rate: "m_fp_rate m = (if 0 < tp + fp then py_fmul (true_div fp (tp + fp)) 100 else 0)"
    and prec: "m_precision m = (if 0 < tp + fp then py_fmul (true_div tp (tp + fp)) 100 else 0)"
    by (simp_all add: m metrics_of_def Let_def tp_def fp_def)
  have range: "0 \<le> m_fp_rate m \<and> m_fp_rate m \<le> 100 \<and> 0 \<le> m_precision m \<and> m_precision m \<le> 100"
  proof (cases "0 < tp + fp")
    case True
    with rate_props [of fp "tp + fp"] rate_props [of tp "tp + fp"] nn show ?thesis
      by (simp add: rate prec)
  next
    case False
    then show ?thesis by (simp add: rate prec)
  qed
  have close: "0 < tp + fp \<longrightarrow>
        \<bar>m_fp_rate m - of_int fp / of_int (tp + fp) * 100\<bar> \<le> 41 / 2 ^ 51 \<and>
        \<bar>m_precision m - of_int tp / of_int (tp + fp) * 100\<bar> \<le> 41 / 2 ^ 51 \<and>
        \<bar>m_fp_rate m + m_precision m - 100\<bar> \<le> 1 / 2 ^ 44"
  proof
    assume pos: "0 < tp + fp"
    have "\<bar>py_fmul (true_div tp (tp + fp)) 100 + py_fmul (true_div fp (tp + fp)) 100 - 100\<bar> \<le> 1 / 2 ^ 44"
      using nn pos by (rule rates_sum)
    with rate_props [of fp "tp + fp"] rate_props [of tp "tp + fp"] nn pos
    show "\<bar>m_fp_rate m - of_int fp / of_int (tp + fp) * 100\<bar> \<le> 41 / 2 ^ 51 \<and>
        \<bar>m_precision m - of_int tp / of_int (tp + fp) * 100\<bar> \<le> 41 / 2 ^ 51 \<and>
        \<bar>m_fp_rate m + m_precision m - 100\<bar> \<le> 1 / 2 ^ 44"
      by (simp add: rate prec add.commute)
  qed
  have zero: "tp + fp = 0 \<longrightarrow> m_fp_rate m = 0 \<and> m_precision m = 0"
    by (simp add: rate prec)
  show "m_tp m = count_class ''TP'' (lint_findings d l) \<and>
     m_fp m = count_class ''FP'' (lint_findings d l) \<and>
     m_fp_rate m = (if 0 < m_tp m + m_fp m
                    then py_fmul (true_div (m_fp m) (m_tp m + m_fp m)) 100 else 0) \<and>
     m_precision m = (if 0 < m_tp m + m_fp m
                      then py_fmul (true_div (m_tp m) (m_tp m + m_fp m)) 100 else 0) \<and>
     0 \<le> m_fp_rate m \<and> m_fp_rate m \<le> 100 \<and> 0 \<le> m_precision m \<and> m_precision m \<le> 100 \<and>
     (0 < m_tp m + m_fp m \<longrightarrow>
        \<bar>m_fp_rate m - of_int (m_fp m) / of_int (m_tp m + m_fp m) * 100\<bar> \<le> 41 / 2 ^ 51 \<and>
        \<bar>m_precision m - of_int (m_tp m) / of_int (m_tp m + m_fp m) * 100\<bar> \<le> 41 / 2 ^ 51 \<and>
        \<bar>m_fp_rate m + m_precision m - 100\<bar> \<le> 1 / 2 ^ 44) \<and>
     (m_tp m + m_fp m = 0 \<longrightarrow> m_fp_rate m = 0 \<and> m_precision m = 0)"
    unfolding mt mf using rate prec range close zero
    by (simp add: tp_def [symmetric] fp_def [symmetric])
qed

lemma thirds_metrics:
  "map_of (calculate_metrics thirds) ''R'' =
     Some \<lparr>m_total = 3, m_tp = 1, m_fp = 2, m_info = 0, m_skip = 0,
           m_fp_rate = 2345624805922133 / 35184372088832,
           m_precision = 2345624805922133 / 70368744177664\<rparr>"
  by code_simp

theorem metrics_rates_witness:
  "map_of (calculate_metrics thirds) ''R'' =
     Some \<lparr>m_total = 3, m_tp = 1, m_fp = 2, m_info = 0, m_skip = 0,
           m_fp_rate = 2345624805922133 / 35184372088832,
           m_precision = 2345624805922133 / 70368744177664\<rparr> \<and>
   (0::int) < 1 + 2 \<and>
   \<bar>(2345624805922133 / 35184372088832 :: rat) + 2345624805922133 / 70368744177664 - 100\<bar>
     \<le> 1 / 2 ^ 44 \<and>
   map_of (calculate_metrics low_signal) ''R'' =
     Some \<lparr>m_total = 5, m_tp = 1, m_fp = 0, m_info = 4, m_skip = 0,
           m_fp_rate = 0, m_precision = 100\<rparr>"
proof -
  have low: "map_of (calculate_metrics low_signal) ''R'' =
     Some \<lparr>m_total = 5, m_tp = 1, m_fp = 0, m_info = 4, m_skip = 0,
           m_fp_rate = 0, m_precision = 100\<rparr>"
    by code_simp
  from metrics_rates [of thirds "''R''", unfolded thirds_metrics] low thirds_metrics
  show ?thesis by simp
qed

text \<open>
  C7, as stated, fails: a rule with one true positive and four informational findings is
  put in the promotion bucket, with one classified finding.
\<close>

theorem promoted_on_unclassified_findings:
  "s_promote (print_summary (calculate_metrics low_signal) low_signal) = [''R''] \<and>
   classified (lint_findings low_signal ''R'') = 1"
  by code_simp

lemma promotable_iff:
  "l \<in> set (promotable (calculate_metrics d)) \<longleftrightarrow>
     m_fp_rate (metrics_of (lint_findings d l)) < 10 \<and> 5 \<le> int (length (lint_findings d l))"
proof -
  have "l \<in> set (promotable (calculate_metrics d)) \<longleftrightarrow>
      (\<exists>m. (l, m) \<in> set (calculate_metrics d) \<and> m_fp_rate m < 10 \<and> 5 \<le> m_total m)"
    by (force simp: promotable_def)
  also have "\<dots> \<longleftrightarrow> (\<exists>m. map_of (calculate_metrics d) l = Some m \<and> m_fp_rate m < 10 \<and> 5 \<le> m_total m)"
    using calculate_metrics_distinct [of d] by simp
  also have "\<dots> \<longleftrightarrow> lint_findings d l \<noteq> [] \<and>
      m_fp_rate (metrics_of (lint_findings d l)) < 10 \<and> 5 \<le> m_total (metrics_of (lint_findings d l))"
    by (auto simp: calculate_metrics_lookup)
  also have "\<dots> \<longleftrightarrow> m_fp_rate (metrics_of (lint_findings d l)) < 10 \<and> 5 \<le> int (length (lint_findings d l))"
    by (auto simp: metrics_of_def Let_def)
  finally show ?thesis .
qed

text \<open>
  C7, amended. A rule is in the promote-to-Stable bucket of \<open>print_summary\<close>, and of
  \<open>generate_report\<close> when it completes, if and only if its false-positive rate is below
  10 and it has at least 5 findings of any classification (\<open>total\<close> counts the
  \<open>INFO\<close> and \<open>SKIP\<close> findings too).
\<close>

theorem promotion_counts_all_findings:
  "(l \<in> set (s_promote (print_summary (calculate_metrics d) d)) \<longleftrightarrow>
      m_fp_rate (metrics_of (lint_findings d l)) < 10 \<and> 5 \<le> int (length (lint_findings d l))) \<and>
   (\<forall>r. generate_report (calculate_metrics d) d = Inr r \<longrightarrow>
      (l \<in> set (r_promote r) \<longleftrightarrow>
         m_fp_rate (metrics_of (lint_findings d l)) < 10 \<and> 5 \<le> int (length (lint_findings d l))))"
  using promotable_iff [of l d]
  by (auto simp: print_summary_def dest!: generate_report_Inr)

lemma five_tp_report:
  "map_sum id r_promote (generate_report (calculate_metrics five_tp) five_tp) = Inr [''R'']"
  by code_simp

theorem promotion_counts_all_findings_witness:
  "s_promote (print_summary (calculate_metrics five_tp) five_tp) = [''R''] \<and>
   map_sum id r_promote (generate_report (calculate_metrics five_tp) five_tp) = Inr [''R''] \<and>
   m_fp_rate (metrics_of (lint_findings five_tp ''R'')) < 10 \<and>
   5 \<le> int (length (lint_findings five_tp ''R''))"
proof -
  have s: "s_promote (print_summary (calculate_metrics five_tp) five_tp) = [''R'']"
    by code_simp
  from promotion_counts_all_findings [of "''R''" five_tp] s five_tp_report
  show ?thesis by simp
qed

text \<open>
  C10. On the metrics of a dataset with at least one finding classified \<open>FP\<close>,
  \<open>generate_report\<close> raises; on those of a dataset with no \<open>TP\<close> and no \<open>FP\<close> it
  raises \<open>ZeroDivisionError\<close>; and whenever it completes, the dataset has at least one
  \<open>TP\<close> and no \<open>FP\<close>.
\<close>

theorem generate_report_raises:
  "((\<exists>f \<in> set (td_findings d). f_classification f = ''FP'') \<longrightarrow>
      (\<exists>e. generate_report (calculate_metrics d) d = Inl e)) \<and>
   (count_class ''TP'' (td_findings d) = 0 \<and> count_class ''FP'' (td_findings d) = 0 \<longrightarrow>
      generate_report (calculate_metrics d) d = Inl (Raise ZeroDivisionError ''division by zero'')) \<and>
   (\<forall>r. generate_report (calculate_metrics d) d = Inr r \<longrightarrow>
      0 < count_class ''TP'' (td_findings d) \<and> count_class ''FP'' (td_findings d) = 0)"
proof (intro conjI impI allI)
  assume "\<exists>f \<in> set (td_findings d). f_classification f = ''FP''"
  then have "filter (\<lambda>f. f_classification f = ''FP'') (td_findings d) \<noteq> []"
    by (auto simp: filter_empty_conv)
  then obtain e where "exn_map write_fp_section
      (group_by_lint (filter (\<lambda>f. f_classification f = ''FP'') (td_findings d))) = Inl e"
    using fp_sections_raise by blast
  then show "\<exists>e. generate_report (calculate_metrics d) d = Inl e"
    using generate_report_Inr [of "calculate_metrics d" d]
    by (cases "generate_report (calculate_metrics d) d") auto
next
  assume "count_class ''TP'' (td_findings d) = 0 \<and> count_class ''FP'' (td_findings d) = 0"
  then show "generate_report (calculate_metrics d) d = Inl (Raise ZeroDivisionError ''division by zero'')"
    by (simp add: generate_report_def Let_def metrics_totals py_truediv_def and_then_def)
next
  fix r
  assume r: "generate_report (calculate_metrics d) d = Inr r"
  from generate_report_Inr [OF r]
  have nz: "count_class ''TP'' (td_findings d) + count_class ''FP'' (td_findings d) \<noteq> 0"
    and ok: "\<exists>ss. exn_map write_fp_section
      (group_by_lint (filter (\<lambda>f. f_classification f = ''FP'') (td_findings d))) = Inr ss"
    by (simp_all add: metrics_totals)
  have "filter (\<lambda>f. f_classification f = ''FP'') (td_findings d) = []"
    using fp_sections_raise [of "filter (\<lambda>f. f_classification f = ''FP'') (td_findings d)"] ok
    by (cases "filter (\<lambda>f. f_classification f = ''FP'') (td_findings d) = []") auto
  then have fp0: "count_class ''FP'' (td_findings d) = 0" by (simp add: count_class_def)
  have "0 \<le> count_class ''TP'' (td_findings d)" by (rule count_class_nonneg)
  moreover have "count_class ''TP'' (td_findings d) \<noteq> 0" using nz fp0 by simp
  ultimately show "0 < count_class ''TP'' (td_findings d)" by arith
  from fp0 show "count_class ''FP'' (td_findings d) = 0" .
qed

lemma thirds_report:
  "generate_report (calculate_metrics thirds) thirds =
     Inl (Raise TypeError ([CHR 0x27] @ ''set'' @ [CHR 0x27] @ '' object is not subscriptable''))"
  by code_simp

theorem generate_report_raises_witness:
  "generate_report (calculate_metrics thirds) thirds =
     Inl (Raise TypeError ([CHR 0x27] @ ''set'' @ [CHR 0x27] @ '' object is not subscriptable'')) \<and>
   generate_report (calculate_metrics no_findings) no_findings =
     Inl (Raise ZeroDivisionError ''division by zero'') \<and>
   map_sum id r_total_tp (generate_report (calculate_metrics five_tp) five_tp) = Inr 5 \<and>
   count_class ''TP'' (td_findings five_tp) = 5 \<and> count_class ''FP'' (td_findings five_tp) = 0"
proof -
  have a: "noted ''FP'' \<in> set (td_findings thirds)" by (simp add: thirds_def)
  have b: "f_classification (noted ''FP'') = ''FP''" by (simp add: noted_def bare_def)
  have c: "count_class ''TP'' (td_findings no_findings) = 0 \<and>
           count_class ''FP'' (td_findings no_findings) = 0"
    by (simp add: no_findings_def count_class_def)
  have d: "map_sum id r_total_tp (generate_report (calculate_metrics five_tp) five_tp) = Inr 5"
    by code_simp
  have e: "count_class ''TP'' (td_findings five_tp) = 5 \<and> count_class ''FP'' (td_findings five_tp) = 0"
    by code_simp
  from generate_report_raises [of thirds] generate_report_raises [of no_findings]
    generate_report_raises [of five_tp] a b c d e thirds_report
  show ?thesis by simp
qed

section \<open>Properties of analyze\_fp\<close>

lemma st_by_lint_step:
  "st_by_lint (analyze_step e st) =
     update_default new_lint_stats (count_by_lint (entry_status e)) (entry_lint e) (st_by_lint st)"
  by (simp add: analyze_step_def Let_def)

lemma st_by_lint_fold:
  "st_by_lint (fold analyze_step es st) =
     fold (\<lambda>e. update_default new_lint_stats (count_by_lint (entry_status e)) (entry_lint e)) es
       (st_by_lint st)"
  by (induction es arbitrary: st) (simp_all add: st_by_lint_step)

lemma update_default_lookup:
  "map_of (update_default dflt g k d) =
     (map_of d)(k \<mapsto> g (case map_of d k of None \<Rightarrow> dflt | Some v \<Rightarrow> v))"
  by (simp add: update_default_def map_of_dict_put)

lemma by_lint_lookup:
  "map_of (fold (\<lambda>e. update_default new_lint_stats (count_by_lint (entry_status e)) (entry_lint e)) es d) l =
     (if filter (\<lambda>e. entry_lint e = l) es = [] then map_of d l
      else Some (fold count_by_lint (map entry_status (filter (\<lambda>e. entry_lint e = l) es))
                   (case map_of d l of None \<Rightarrow> new_lint_stats | Some v \<Rightarrow> v)))"
proof (induction es arbitrary: d)
  case Nil
  then show ?case by simp
next
  case (Cons e es)
  show ?case
    unfolding fold_simps Cons [of "update_default new_lint_stats (count_by_lint (entry_status e)) (entry_lint e) d"]
    by (auto simp: update_default_lookup split: option.splits)
qed

lemma count_by_lint_fold:
  "ls_confirmed (fold count_by_lint ss ls) = ls_confirmed ls + int (length (filter (\<lambda>s. s = ''confirmed'') ss)) \<and>
   ls_fp (fold count_by_lint ss ls) = ls_fp ls + int (length (filter (\<lambda>s. s = ''false_positive'') ss)) \<and>
   ls_wont_fix (fold count_by_lint ss ls) = ls_wont_fix ls + int (length (filter (\<lambda>s. s = ''wont_fix'') ss)) \<and>
   ls_total (fold count_by_lint ss ls) = ls_total ls + int (length ss)"
  by (induction ss arbitrary: ls) (auto simp: count_by_lint_def Let_def)

lemma by_lint_entry:
  assumes "map_of (st_by_lint (analyze_findings db)) l = Some ls"
  shows "ls = fold count_by_lint
                (map entry_status (filter (\<lambda>e. entry_lint e = l) (db_entries db))) new_lint_stats"
  using assms
  by (simp add: analyze_findings_def st_by_lint_fold by_lint_lookup split: if_splits)

lemma count_status_filter:
  "count_status l s db =
     int (length (filter (\<lambda>t. t = s)
                    (map entry_status (filter (\<lambda>e. entry_lint e = l) (db_entries db)))))"
  by (simp add: count_status_def filter_map o_def conj_commute)

text \<open>
  C8, as stated, fails: for a rule with one false positive and one \<open>wont_fix\<close> entry the
  rate is 50, where false positives over confirmed plus false positives is 100.
\<close>

theorem wont_fix_counts_as_reviewed:
  "map_option calculate_fp_rate (map_of (st_by_lint (analyze_findings wont_fix_db)) ''L'') = Some 50 \<and>
   count_status ''L'' ''false_positive'' wont_fix_db = 1 \<and>
   count_status ''L'' ''confirmed'' wont_fix_db = 0 \<and>
   py_fmul (true_div 1 (0 + 1)) 100 = 100"
  by code_simp

text \<open>
  C8, amended. For every rule of a triage database in the map shape, the rate of
  \<open>calculate_fp_rate\<close> is the float product by 100 of the float quotient of the number
  of \<open>false_positive\<close> entries by the number of \<open>confirmed\<close>, \<open>false_positive\<close> and
  \<open>wont_fix\<close> entries of the rule (only \<open>needs_review\<close> and unknown statuses are left
  out), and 0 when that number is 0; it lies between 0 and 100, within \<open>41 / 2\<^sup>5\<^sup>1\<close> of
  the exact percentage.
\<close>

theorem fp_rate_over_reviewed:
  "map_of (st_by_lint (analyze_findings db)) l = Some ls \<longrightarrow>
     ls_confirmed ls = count_status l ''confirmed'' db \<and>
     ls_fp ls = count_status l ''false_positive'' db \<and>
     ls_wont_fix ls = count_status l ''wont_fix'' db \<and>
     calculate_fp_rate ls =
       (if ls_confirmed ls + ls_fp ls + ls_wont_fix ls = 0 then 0
        else py_fmul (true_div (ls_fp ls) (ls_confirmed ls + ls_fp ls + ls_wont_fix ls)) 100) \<and>
     0 \<le> calculate_fp_rate ls \<and> calculate_fp_rate ls \<le> 100 \<and>
     (ls_confirmed ls + ls_fp ls + ls_wont_fix ls \<noteq> 0 \<longrightarrow>
        \<bar>calculate_fp_rate ls
           - of_int (ls_fp ls) / of_int (ls_confirmed ls + ls_fp ls + ls_wont_fix ls) * 100\<bar>
          \<le> 41 / 2 ^ 51)"
proof
  assume a: "map_of (st_by_lint (analyze_findings db)) l = Some ls"
  define ss where "ss = map entry_status (filter (\<lambda>e. entry_lint e = l) (db_entries db))"
  have ls: "ls = fold count_by_lint ss new_lint_stats"
    using by_lint_entry [OF a] by (simp add: ss_def)
  have c: "ls_confirmed ls = count_status l ''confirmed'' db"
    and f: "ls_fp ls = count_status l ''false_positive'' db"
    and w: "ls_wont_fix ls = count_status l ''wont_fix'' db"
    using count_by_lint_fold [of ss new_lint_stats]
    by (simp_all add: ls count_status_filter ss_def new_lint_stats_def)
  have nn: "0 \<le> ls_confirmed ls" "0 \<le> ls_fp ls" "0 \<le> ls_wont_fix ls"
    by (simp_all add: c f w count_status_def)
  define t where "t = ls_confirmed ls + ls_fp ls + ls_wont_fix ls"
  have rate: "calculate_fp_rate ls = (if t = 0 then 0 else py_fmul (true_div (ls_fp ls) t) 100)"
    by (simp add: calculate_fp_rate_def Let_def t_def)
  have props: "0 \<le> calculate_fp_rate ls \<and> calculate_fp_rate ls \<le> 100 \<and>
     (t \<noteq> 0 \<longrightarrow> \<bar>calculate_fp_rate ls - of_int (ls_fp ls) / of_int t * 100\<bar> \<le> 41 / 2 ^ 51)"
  proof (cases "t = 0")
    case True
    then show ?thesis by (simp add: rate)
  next
    case False
    with nn have "ls_fp ls \<le> t" "0 < t" by (simp_all add: t_def)
    with rate_props [of "ls_fp ls" t] nn False show ?thesis by (simp add: rate)
  qed
  show "ls_confirmed ls = count_status l ''confirmed'' db \<and>
     ls_fp ls = count_status l ''false_positive'' db \<and>
     ls_wont_fix ls = count_status l ''wont_fix'' db \<and>
     calculate_fp_rate ls =
       (if ls_confirmed ls + ls_fp ls + ls_wont_fix ls = 0 then 0
        else py_fmul (true_div (ls_fp ls) (ls_confirmed ls + ls_fp ls + ls_wont_fix ls)) 100) \<and>
     0 \<le> calculate_fp_rate ls \<and> calculate_fp_rate ls \<le> 100 \<and>
     (ls_confirmed ls + ls_fp ls + ls_wont_fix ls \<noteq> 0 \<longrightarrow>
        \<bar>calculate_fp_rate ls
           - of_int (ls_fp ls) / of_int (ls_confirmed ls + ls_fp ls + ls_wont_fix ls) * 100\<bar>
          \<le> 41 / 2 ^ 51)"
    using c f w rate props unfolding t_def by blast
qed

lemma wont_fix_db_stats:
  "map_of (st_by_lint (analyze_findings wont_fix_db)) ''L'' =
     Some \<lparr>ls_total = 2, ls_confirmed = 0, ls_fp = 1, ls_wont_fix = 1, ls_needs_review = 0\<rparr>"
  by code_simp

theorem fp_rate_over_reviewed_witness:
  "map_of (st_by_lint (analyze_findings wont_fix_db)) ''L'' =
     Some \<lparr>ls_total = 2, ls_confirmed = 0, ls_fp = 1, ls_wont_fix = 1, ls_needs_review = 0\<rparr> \<and>
   count_status ''L'' ''wont_fix'' wont_fix_db = 1 \<and>
   calculate_fp_rate \<lparr>ls_total = 2, ls_confirmed = 0, ls_fp = 1, ls_wont_fix = 1,
                       ls_needs_review = 0\<rparr> = py_fmul (true_div 1 2) 100 \<and>
   py_fmul (true_div 1 2) 100 = 50"
proof -
  have v: "py_fmul (true_div 1 2) 100 = 50" by code_simp
  from fp_rate_over_reviewed [of wont_fix_db "''L''"
      "\<lparr>ls_total = 2, ls_confirmed = 0, ls_fp = 1, ls_wont_fix = 1, ls_needs_review = 0\<rparr>"]
    wont_fix_db_stats v
  show ?thesis by simp
qed

end
